theory Spec2Isabelle
  imports Main "HOL-Library.Word" "HOL-Library.Sublist" "HOL-Library.AList"
begin

unbundle bit_operations_syntax

section \<open>Strings of the crawler: truncateUtf8 (CrawlerService.ts)\<close>

text \<open>
  A TypeScript string is a sequence of UTF-16 code units; \<open>length\<close>, \<open>substring\<close> and
  \<open>charCodeAt\<close> all count and read code units. The model keeps that: a string is a list of
  16-bit words.
\<close>

type_synonym js_string = "16 word list"

text \<open>
  The loop of \<open>truncateUtf8\<close>:
  \<^verbatim>\<open>while (truncated.length > 0 && (truncated.charCodeAt(truncated.length - 1) & 0xC0) === 0x80)
    truncated = truncated.substring(0, truncated.length - 1);\<close>
\<close>

function strip_continuation :: "js_string \<Rightarrow> js_string" where
  "strip_continuation truncated =
     (if length truncated > 0 \<and> (last truncated AND 0xC0) = 0x80
      then strip_continuation (butlast truncated)
      else truncated)"
  by pat_completeness auto
termination
  by (relation "measure length") auto

declare strip_continuation.simps [simp del]

text \<open>
  \<^verbatim>\<open>truncateUtf8(text: string, maxLength: number = 100000): string\<close>.
  The limit is a number; the model takes an integer. \<open>!text\<close> holds for the empty string;
  \<open>substring(0, maxLength)\<close> clamps a negative limit to 0, which \<open>nat\<close> does as well.
\<close>

definition truncateUtf8 :: "js_string \<Rightarrow> int \<Rightarrow> js_string" where
  "truncateUtf8 text maxLength =
     (if text = [] \<or> int (length text) \<le> maxLength then text
      else strip_continuation (take (nat maxLength) text))"

text \<open>
  What the specification asks of the result: that no character has been cut in two. For a
  sequence of UTF-16 code units this says that every high surrogate (D800..DBFF) is
  followed by a low surrogate (DC00..DFFF) and that no low surrogate stands alone; exactly
  these sequences have a valid UTF-8 encoding.
\<close>

definition is_high_surrogate :: "16 word \<Rightarrow> bool" where
  "is_high_surrogate u = (0xD800 \<le> u \<and> u \<le> 0xDBFF)"

definition is_low_surrogate :: "16 word \<Rightarrow> bool" where
  "is_low_surrogate u = (0xDC00 \<le> u \<and> u \<le> 0xDFFF)"

fun well_formed_utf16 :: "js_string \<Rightarrow> bool" where
  "well_formed_utf16 [] = True"
| "well_formed_utf16 [u] = (\<not> is_high_surrogate u \<and> \<not> is_low_surrogate u)"
| "well_formed_utf16 (u # v # us) =
     (if is_high_surrogate u then is_low_surrogate v \<and> well_formed_utf16 us
      else \<not> is_low_surrogate u \<and> well_formed_utf16 (v # us))"

section \<open>The session fetcher (CrawlerService.ts)\<close>

text \<open>
  Header values, cookie strings and URLs are ASCII texts: plain \<open>string\<close>s. A header set
  is a JavaScript object from names to values, here a map; \<open>{...a, ...b}\<close> is \<open>a ++ b\<close>.
\<close>

type_synonym headers = "string \<rightharpoonup> string"

text \<open>
  An axios response, with the parts the crawler reads: \<open>status\<close>, the \<open>location\<close> and
  \<open>set-cookie\<close> headers (a missing header is \<open>None\<close>), and \<open>data\<close> when it is a string
  (\<open>None\<close> when axios has parsed it into an object).
\<close>

record response =
  resp_status :: int
  location :: "string option"
  set_cookie :: "string list option"
  resp_text :: "string option"

text \<open>
  A rejected axios call: \<open>error.response\<close> (status and status text), \<open>error.code\<close> and
  \<open>error.message\<close>, each possibly missing.
\<close>

record axios_error =
  err_response :: "(int \<times> string) option"
  err_code :: "string option"
  err_message :: "string option"

text \<open>
  A GET as the network sees it: the URL, whether the query parameters of the JSON variant
  (\<open>_contentOnly\<close>, \<open>_format\<close>, \<open>_timestamp\<close>) were added, the headers, and whether
  \<open>frontendFetchConfig\<close> was passed (no redirect is followed and every status resolves).
  The network is outside the program: \<open>net n req\<close> is what the \<open>n\<close>-th GET of a call
  answers to the request \<open>req\<close>. Every function that issues GETs takes the list of requests
  issued so far and returns it extended.
\<close>

record request =
  req_url :: string
  req_query :: bool
  req_headers :: headers
  req_frontend :: bool

type_synonym network = "nat \<Rightarrow> request \<Rightarrow> axios_error + response"

definition axios_get :: "network \<Rightarrow> request \<Rightarrow> request list \<Rightarrow> (axios_error + response) \<times> request list" where
  "axios_get net req issued = (net (length issued) req, issued @ [req])"

text \<open>JavaScript truthiness of an optional string: present and not empty.\<close>

definition truthy :: "string option \<Rightarrow> bool" where
  "truthy x = (case x of None \<Rightarrow> False | Some t \<Rightarrow> t \<noteq> [])"

definition defaultHeaders :: headers where
  "defaultHeaders =
     [''User-Agent'' \<mapsto> ''Mozilla/5.0 (Windows NT 10.0; Win64; x64) AppleWebKit/537.36 (KHTML, like Gecko) Chrome/98.0.4758.102 Safari/537.36'',
      ''x-luogu-type'' \<mapsto> ''content-only'',
      ''Accept'' \<mapsto> ''text/html,application/xhtml+xml,application/xml;q=0.9,*/*;q=0.8'']"

subsection \<open>mergeSetCookieToHeaders\<close>

text \<open>
  \<open>s.split(sep)\<close> for a non-empty separator: the pieces between the occurrences of \<open>sep\<close>,
  found left to right; the result always has at least one piece. \<open>split_from\<close> carries the
  piece read so far.
\<close>

function split_from :: "string \<Rightarrow> string \<Rightarrow> string \<Rightarrow> string list" where
  "split_from sep piece [] = [piece]"
| "split_from sep piece (c # cs) =
     (if sep \<noteq> [] \<and> prefix sep (c # cs)
      then piece # split_from sep [] (drop (length sep) (c # cs))
      else split_from sep (piece @ [c]) cs)"
  by pat_completeness auto
termination
  by (relation "measure (\<lambda>(sep, piece, rest). length rest)") auto

definition js_split :: "string \<Rightarrow> string \<Rightarrow> string list" where
  "js_split sep s = split_from sep [] s"

text \<open>
  \<^verbatim>\<open>const [k, v] = cur.split('='); if (k && v) ...\<close>: the first two pieces, both not empty.
\<close>

definition cookie_pair :: "string \<Rightarrow> (string \<times> string) option" where
  "cookie_pair cur =
     (case js_split ''='' cur of
        k # v # _ \<Rightarrow> if k \<noteq> [] \<and> v \<noteq> [] then Some (k, v) else None
      | _ \<Rightarrow> None)"

text \<open>
  The object \<open>existingCookies\<close>, as the list of its own properties in insertion order.
  \<open>obj[k] = v\<close> replaces the value of a property it has and appends a new one otherwise;
  assigning a string to \<open>__proto__\<close> adds no property. \<open>Object.entries\<close> lists the
  properties whose names are array indices (canonical decimal numbers below \<open>2^32 - 1\<close>)
  first, in ascending order, and then the others in insertion order.
\<close>

type_synonym js_object = "(string \<times> string) list"

definition assign :: "string \<Rightarrow> string \<Rightarrow> js_object \<Rightarrow> js_object" where
  "assign k v obj = (if k = ''__proto__'' then obj else AList.update k v obj)"

definition is_digit :: "char \<Rightarrow> bool" where
  "is_digit c = (48 \<le> (of_char c :: nat) \<and> (of_char c :: nat) \<le> 57)"

definition decimal :: "string \<Rightarrow> nat" where
  "decimal t = foldl (\<lambda>n c. 10 * n + ((of_char c :: nat) - 48)) 0 t"

definition is_array_index :: "string \<Rightarrow> bool" where
  "is_array_index t =
     (t \<noteq> [] \<and> list_all is_digit t \<and> (t = ''0'' \<or> hd t \<noteq> CHR ''0'') \<and> decimal t < 4294967295)"

definition entries :: "js_object \<Rightarrow> (string \<times> string) list" where
  "entries obj =
     sort_key (\<lambda>p. decimal (fst p)) (filter (\<lambda>p. is_array_index (fst p)) obj)
     @ filter (\<lambda>p. \<not> is_array_index (fst p)) obj"

fun join :: "string \<Rightarrow> string list \<Rightarrow> string" where
  "join sep [] = []"
| "join sep [x] = x"
| "join sep (x # y # ys) = x @ sep @ join sep (y # ys)"

definition take_pair :: "string \<Rightarrow> js_object \<Rightarrow> js_object" where
  "take_pair cur acc = (case cookie_pair cur of None \<Rightarrow> acc | Some (k, v) \<Rightarrow> assign k v acc)"

text \<open>
  The callback of \<open>setCookie.forEach\<close>: the text before the first \<open>;\<close>, if not empty,
  is read as a pair.
\<close>

definition take_set_cookie :: "string \<Rightarrow> js_object \<Rightarrow> js_object" where
  "take_set_cookie cookieStr acc =
     (case js_split '';'' cookieStr of
        cookiePair # _ \<Rightarrow> if cookiePair \<noteq> [] then take_pair cookiePair acc else acc
      | [] \<Rightarrow> acc)"

definition existingCookies :: "headers \<Rightarrow> js_object" where
  "existingCookies hs =
     (case hs ''Cookie'' of
        None \<Rightarrow> []
      | Some c \<Rightarrow> if c \<noteq> [] then fold take_pair (js_split ''; '' c) [] else [])"

definition mergeSetCookieToHeaders :: "response \<Rightarrow> headers \<Rightarrow> headers" where
  "mergeSetCookieToHeaders resp hs =
     (case set_cookie resp of
        None \<Rightarrow> hs
      | Some setCookie \<Rightarrow>
          hs(''Cookie'' \<mapsto>
               join ''; '' (map (\<lambda>p. fst p @ ''='' @ snd p)
                               (entries (fold take_set_cookie setCookie (existingCookies hs))))))"



subsection \<open>fetchContent\<close>

text \<open>
  What \<open>fetchContent\<close> throws: a \<open>NetworkError\<close> for a connection-level failure of one of
  its own two GETs, and the axios error itself otherwise.
\<close>

datatype fetch_error = NetworkError axios_error | Rethrown axios_error

definition connection_level :: "axios_error \<Rightarrow> bool" where
  "connection_level err =
     (err_code err = Some ''ECONNABORTED'' \<or> err_code err = Some ''ETIMEDOUT''
      \<or> err_code err = Some ''ECONNREFUSED'' \<or> err_code err = Some ''ENOTFOUND''
      \<or> err_code err = Some ''ECONNRESET''
      \<or> (case err_message err of None \<Rightarrow> False | Some m \<Rightarrow> sublist ''timeout'' m))"

definition classify_error :: "axios_error \<Rightarrow> fetch_error" where
  "classify_error err = (if connection_level err then NetworkError err else Rethrown err)"

text \<open>
  \<open>handleLegacyC3VK\<close>: the first match of \<open>/C3VK=([a-zA-Z0-9]+);/\<close> in a string body. The
  class \<open>[a-zA-Z0-9]\<close> excludes \<open>;\<close>, so at each occurrence of \<open>C3VK=\<close> the match is the
  longest run of letters and digits, if not empty and followed by \<open>;\<close>. The second GET of
  this path passes no \<open>frontendFetchConfig\<close>, and its failure is not caught.
\<close>

definition is_alnum :: "char \<Rightarrow> bool" where
  "is_alnum c =
     (let n = (of_char c :: nat)
      in (48 \<le> n \<and> n \<le> 57) \<or> (65 \<le> n \<and> n \<le> 90) \<or> (97 \<le> n \<and> n \<le> 122))"

fun c3vk_match :: "string \<Rightarrow> string option" where
  "c3vk_match [] = None"
| "c3vk_match (c # cs) =
     (if prefix ''C3VK='' (c # cs)
           \<and> takeWhile is_alnum (drop 5 (c # cs)) \<noteq> []
           \<and> prefix '';'' (dropWhile is_alnum (drop 5 (c # cs)))
      then Some (takeWhile is_alnum (drop 5 (c # cs)))
      else c3vk_match cs)"

definition handleLegacyC3VK ::
  "network \<Rightarrow> response \<Rightarrow> string \<Rightarrow> headers \<Rightarrow> request list
   \<Rightarrow> (axios_error + response) \<times> request list" where
  "handleLegacyC3VK net resp url hs issued =
     (case resp_text resp of
        None \<Rightarrow> (Inr resp, issued)
      | Some body \<Rightarrow>
          (case c3vk_match body of
             None \<Rightarrow> (Inr resp, issued)
           | Some c3vk \<Rightarrow>
               axios_get net
                 \<lparr>req_url = url, req_query = False,
                  req_headers = hs(''Cookie'' \<mapsto> ''C3VK='' @ c3vk), req_frontend = False\<rparr>
                 issued))"

text \<open>
  \<open>fetchContent(url, headers, { c3vk })\<close>, with \<open>c3vk\<close> the cookie mode (\<open>"new"\<close> when
  omitted). The result is \<open>{ resp, headers: h }\<close> or the error thrown.
\<close>

definition fetchContent ::
  "network \<Rightarrow> string \<Rightarrow> headers \<Rightarrow> string \<Rightarrow> request list
   \<Rightarrow> (fetch_error + response \<times> headers) \<times> request list" where
  "fetchContent net url hs c3vk issued =
     (let h = defaultHeaders ++ hs in
      case axios_get net \<lparr>req_url = url, req_query = False, req_headers = h, req_frontend = True\<rparr>
             issued of
        (Inl err, issued1) \<Rightarrow> (Inl (classify_error err), issued1)
      | (Inr resp, issued1) \<Rightarrow>
          (case (if c3vk = ''legacy'' then handleLegacyC3VK net resp url h issued1
                 else (Inr resp, issued1)) of
             (Inl err, issued2) \<Rightarrow> (Inl (Rethrown err), issued2)
           | (Inr resp2, issued2) \<Rightarrow>
               if c3vk = ''new'' \<and> resp_status resp2 = 302 \<and> truthy (location resp2)
               then (let h2 = mergeSetCookieToHeaders resp2 h in
                     case axios_get net
                            \<lparr>req_url = url, req_query = False, req_headers = h2,
                             req_frontend = True\<rparr> issued2 of
                       (Inl err, issued3) \<Rightarrow> (Inl (classify_error err), issued3)
                     | (Inr resp3, issued3) \<Rightarrow> (Inr (resp3, h2), issued3))
               else (Inr (resp2, h), issued2)))"

section \<open>The crawl operations (CrawlerService.ts)\<close>

text \<open>
  The messages of a crawl result are string literals and templates of the source, most of
  them in Chinese; each constructor stands for one of them:
  \<^item> \<open>NeedLogin\<close>: a redirect to a login path ("login required: the article, or the paste,
    can only be read after login");
  \<^item> \<open>HttpRedirect status location\<close>: the template for any other redirect;
  \<^item> \<open>NotFoundOrDeleted\<close>: status 404 ("the article, or the paste, does not exist or has
    been deleted");
  \<^item> \<open>AccessDenied\<close>: status 403 or 451 ("access denied: may be protected");
  \<^item> \<open>AuthExpired\<close>: status 401 ("login required: authentication has expired");
  \<^item> \<open>HttpError status\<close>: the template for every other status but 200;
  \<^item> \<open>HttpStatusText\<close>, \<open>RequestTimeout\<close>, \<open>UnknownError\<close>: the messages of the outer
    \<open>catch\<close>; \<open>NetworkFailed\<close>: the message of a \<open>NetworkError\<close>;
  \<^item> \<open>Verbatim\<close>: a message taken over from a thrown error;
  \<^item> \<open>CrawlFailed\<close>, \<open>SaveFailed\<close>, \<open>ArticleUpdated\<close>, \<open>ArticleSaved\<close>: the literals of
    \<open>saveArticleDirectly\<close>.
\<close>

datatype kind = Article | Paste

datatype msg =
    NeedLogin kind
  | HttpRedirect int string
  | NotFoundOrDeleted kind
  | AccessDenied kind
  | AuthExpired
  | HttpError int
  | HttpStatusText int string
  | RequestTimeout
  | UnknownError
  | NetworkFailed "string option"
  | Verbatim string
  | CrawlFailed
  | SaveFailed
  | ArticleUpdated
  | ArticleSaved

text \<open>\<open>interface CrawlResult\<close>; the type of \<open>data\<close> is a parameter.\<close>

record 'a CrawlResult =
  success :: bool
  data :: "'a option"
  message :: "msg option"
  statusCode :: "int option"

definition failure :: "msg \<Rightarrow> int \<Rightarrow> 'a CrawlResult" where
  "failure m code = \<lparr>success = False, data = None, message = Some m, statusCode = Some code\<rparr>"

text \<open>
  The part of \<open>crawlArticle\<close> and of \<open>crawlPaste\<close> from the redirect test to the end of the
  \<open>try\<close> block; the two copies differ in the noun of three messages (\<open>kind\<close>). What they
  make of a 200 response (the login and challenge probes and the parser tiers, together
  with the failure the outer \<open>catch\<close> returns if that part throws) is the parameter \<open>page\<close>.
\<close>

definition respond :: "kind \<Rightarrow> (response \<Rightarrow> 'a CrawlResult) \<Rightarrow> response \<Rightarrow> 'a CrawlResult" where
  "respond k page resp =
     (if 300 \<le> resp_status resp \<and> resp_status resp < 400 \<and> truthy (location resp)
      then (case location resp of
              None \<Rightarrow> page resp
            | Some loc \<Rightarrow>
                if sublist ''auth/login'' loc \<or> sublist ''login'' loc
                then failure (NeedLogin k) (resp_status resp)
                else failure (HttpRedirect (resp_status resp) loc) (resp_status resp))
      else if resp_status resp \<noteq> 200
      then (if resp_status resp = 404 then failure (NotFoundOrDeleted k) 404
            else if resp_status resp = 403 \<or> resp_status resp = 451
            then failure (AccessDenied k) (resp_status resp)
            else if resp_status resp = 401 then failure AuthExpired 401
            else failure (HttpError (resp_status resp)) (resp_status resp))
      else page resp)"

text \<open>The outer \<open>catch\<close> of both functions: a failure with a message and no status code.\<close>

definition catch_message :: "axios_error \<Rightarrow> msg" where
  "catch_message err =
     (case err_response err of
        Some (code, statusText) \<Rightarrow> HttpStatusText code statusText
      | None \<Rightarrow>
          if err_code err = Some ''ECONNABORTED'' then RequestTimeout
          else if truthy (err_message err) then Verbatim (the (err_message err))
          else UnknownError)"

definition caught :: "fetch_error \<Rightarrow> 'a CrawlResult" where
  "caught e =
     \<lparr>success = False, data = None,
      message = Some (case e of
                        NetworkError err \<Rightarrow>
                          NetworkFailed (if truthy (err_message err) then err_message err
                                         else err_code err)
                      | Rethrown err \<Rightarrow> catch_message err),
      statusCode = None\<rparr>"

text \<open>
  \<open>createHeaders(cookie)\<close>: the default headers, the literal headers of the function with
  the random user agent (\<open>fixed\<close>), and the cookie if one is given.
\<close>

definition createHeaders :: "headers \<Rightarrow> string option \<Rightarrow> headers" where
  "createHeaders fixed cookie =
     (case cookie of
        None \<Rightarrow> defaultHeaders ++ fixed
      | Some c \<Rightarrow> if c \<noteq> [] then (defaultHeaders ++ fixed)(''Cookie'' \<mapsto> c)
                  else defaultHeaders ++ fixed)"

definition jsonHeaders :: headers where
  "jsonHeaders =
     [''Accept'' \<mapsto> ''application/json, text/plain, */*'',
      ''Content-Type'' \<mapsto> ''application/json'',
      ''X-Requested-With'' \<mapsto> ''XMLHttpRequest'']"

text \<open>
  \<open>fetchLuoguJsonApi\<close>: the JSON variant first and, if that GET throws, the plain page.
\<close>

definition fetchLuoguJsonApi ::
  "network \<Rightarrow> string \<Rightarrow> headers \<Rightarrow> request list \<Rightarrow> (axios_error + response) \<times> request list" where
  "fetchLuoguJsonApi net url hs issued =
     (case axios_get net
             \<lparr>req_url = url, req_query = True, req_headers = hs ++ jsonHeaders,
              req_frontend = True\<rparr> issued of
        (Inr resp, issued1) \<Rightarrow> (Inr resp, issued1)
      | (Inl err, issued1) \<Rightarrow>
          axios_get net \<lparr>req_url = url, req_query = False, req_headers = hs, req_frontend = True\<rparr>
            issued1)"

text \<open>
  \<^verbatim>\<open>try { response = await this.fetchLuoguJsonApi(url, headers); }
  catch (error) { response = await axios.get(url, {...this.frontendFetchConfig, headers}); }\<close>
\<close>

definition fetch_article ::
  "network \<Rightarrow> string \<Rightarrow> headers \<Rightarrow> request list \<Rightarrow> (axios_error + response) \<times> request list" where
  "fetch_article net url hs issued =
     (case fetchLuoguJsonApi net url hs issued of
        (Inr resp, issued1) \<Rightarrow> (Inr resp, issued1)
      | (Inl err, issued1) \<Rightarrow>
          axios_get net \<lparr>req_url = url, req_query = False, req_headers = hs, req_frontend = True\<rparr>
            issued1)"

definition crawlArticle ::
  "network \<Rightarrow> (response \<Rightarrow> 'a CrawlResult) \<Rightarrow> headers \<Rightarrow> string \<Rightarrow> string option
   \<Rightarrow> 'a CrawlResult \<times> request list" where
  "crawlArticle net page fixed articleId cookie =
     (let url = ''https://www.luogu.com/article/'' @ articleId;
          hs = createHeaders fixed cookie in
      case fetch_article net url hs [] of
        (Inl err, issued1) \<Rightarrow> (caught (Rethrown err), issued1)
      | (Inr resp, issued1) \<Rightarrow>
          if resp_status resp = 302 \<and> truthy (location resp)
          then (case fetch_article net url (mergeSetCookieToHeaders resp hs) issued1 of
                  (Inl err, issued2) \<Rightarrow> (caught (Rethrown err), issued2)
                | (Inr resp2, issued2) \<Rightarrow> (respond Article page resp2, issued2))
          else (respond Article page resp, issued1))"

definition crawlPaste ::
  "network \<Rightarrow> (response \<Rightarrow> 'a CrawlResult) \<Rightarrow> headers \<Rightarrow> string \<Rightarrow> string option
   \<Rightarrow> 'a CrawlResult \<times> request list" where
  "crawlPaste net page fixed pasteId cookie =
     (let url = ''https://www.luogu.com/paste/'' @ pasteId;
          hs = createHeaders fixed cookie in
      case fetchContent net url hs ''new'' [] of
        (Inl e, issued1) \<Rightarrow> (caught e, issued1)
      | (Inr (resp, updatedHeaders), issued1) \<Rightarrow>
          if resp_status resp = 302 \<and> truthy (location resp)
          then (case fetchContent net url (mergeSetCookieToHeaders resp hs) ''new'' issued1 of
                  (Inl e, issued2) \<Rightarrow> (caught e, issued2)
                | (Inr (resp2, updatedHeaders2), issued2) \<Rightarrow> (respond Paste page resp2, issued2))
          else (respond Paste page resp, issued1))"

subsection \<open>saveArticleDirectly\<close>

text \<open>
  The result of \<open>saveArticleDirectly\<close> is \<open>{ success, message, data? }\<close>. The value put
  into \<open>message\<close> is a string in every \<open>return\<close> but the last, which returns
  \<open>lastError || (the literal SaveFailed)\<close>: \<open>lastError\<close> holds a string after the \<open>catch\<close>
  block (\<open>error.message || ...\<close>) and an \<open>Error\<close> object after a 451 outcome
  (\<open>new Error(crawlResult.message)\<close>).
\<close>

datatype message_value = Text msg | ErrorObject "msg option"

record 'a save_result =
  saved :: bool
  save_message :: message_value
  save_data :: "'a option"

text \<open>
  What happens after a successful crawl: \<open>Article.findOne\<close> finds the article and it is
  updated, or finds none and one is created, or one of the database calls throws.
\<close>

datatype 'a store_outcome = Updated 'a | Created 'a | StoreThrows "string option"

text \<open>
  A run of \<open>saveArticleDirectly\<close>: the result, the number of crawl attempts made and the
  delays slept, in milliseconds and in order (the jitter before each crawl and the
  \<open>attempt * 5000\<close> after a 451).
\<close>

record 'a save_run =
  returned :: "'a save_result"
  attempts_made :: nat
  slept :: "nat list"

definition blocked_text :: "string option \<Rightarrow> bool" where
  "blocked_text m =
     (case m of
        None \<Rightarrow> False
      | Some t \<Rightarrow> sublist ''451'' t \<or> sublist ''Unavailable For Legal Reasons'' t)"

text \<open>
  The \<open>for\<close> loop with what follows it. The environment of the call: \<open>crawl n\<close> is what
  \<open>crawlArticle\<close> returns on attempt \<open>n\<close>, \<open>store n\<close> what the database does then, and
  \<open>jitter n\<close> the random delay before it. \<open>maxRetries\<close> is \<open>parseInt\<close> of the environment
  variable or of \<open>'3'\<close>; a value that does not parse behaves as 0 does (no attempt is made).
\<close>

function attempt_loop ::
  "(nat \<Rightarrow> 'a CrawlResult) \<Rightarrow> (nat \<Rightarrow> 'a store_outcome) \<Rightarrow> (nat \<Rightarrow> nat) \<Rightarrow> int
   \<Rightarrow> nat \<Rightarrow> message_value option \<Rightarrow> nat list \<Rightarrow> 'a save_run" where
  "attempt_loop crawl store jitter maxRetries attempt lastError zs =
     (if int attempt \<le> maxRetries
      then (let zs1 = zs @ [jitter attempt]; crawlResult = crawl attempt in
            if \<not> success crawlResult
            then (if statusCode crawlResult = Some 451
                  then attempt_loop crawl store jitter maxRetries (Suc attempt)
                         (Some (ErrorObject (message crawlResult))) (zs1 @ [attempt * 5000])
                  else \<lparr>returned = \<lparr>saved = False,
                                     save_message = Text (case message crawlResult of
                                                            None \<Rightarrow> CrawlFailed
                                                          | Some m \<Rightarrow> m),
                                     save_data = None\<rparr>,
                        attempts_made = attempt, slept = zs1\<rparr>)
            else (case store attempt of
                    Updated doc \<Rightarrow>
                      \<lparr>returned = \<lparr>saved = True, save_message = Text ArticleUpdated,
                                   save_data = Some doc\<rparr>,
                       attempts_made = attempt, slept = zs1\<rparr>
                  | Created doc \<Rightarrow>
                      \<lparr>returned = \<lparr>saved = True, save_message = Text ArticleSaved,
                                   save_data = Some doc\<rparr>,
                       attempts_made = attempt, slept = zs1\<rparr>
                  | StoreThrows m \<Rightarrow>
                      if blocked_text m
                      then attempt_loop crawl store jitter maxRetries (Suc attempt)
                             (Some (Text (if truthy m then Verbatim (the m) else SaveFailed)))
                             (zs1 @ [attempt * 5000])
                      else \<lparr>returned = \<lparr>saved = False,
                                         save_message = Text (if truthy m then Verbatim (the m)
                                                              else SaveFailed),
                                         save_data = None\<rparr>,
                            attempts_made = attempt, slept = zs1\<rparr>))
      else \<lparr>returned = \<lparr>saved = False,
                         save_message = (case lastError of None \<Rightarrow> Text SaveFailed | Some e \<Rightarrow> e),
                         save_data = None\<rparr>,
            attempts_made = attempt - 1, slept = zs\<rparr>)"
  by pat_completeness auto
termination
  by (relation "measure (\<lambda>(crawl, store, jitter, maxRetries, attempt, lastError, zs).
                           nat (maxRetries + 1 - int attempt))") auto

declare attempt_loop.simps [simp del]

definition saveArticleDirectly ::
  "(nat \<Rightarrow> 'a CrawlResult) \<Rightarrow> (nat \<Rightarrow> 'a store_outcome) \<Rightarrow> (nat \<Rightarrow> nat) \<Rightarrow> int \<Rightarrow> 'a save_run" where
  "saveArticleDirectly crawl store jitter maxRetries =
     attempt_loop crawl store jitter maxRetries 1 None []"

section \<open>The persisted task model (models/Task.ts)\<close>

datatype task_status = Pending | Processing | Completed | Failed | Cancelled

text \<open>A \<open>Date\<close> is its number of milliseconds.\<close>

type_synonym time = nat

text \<open>
  A document of the \<open>Task\<close> collection, with the paths the scheduler and the instance
  methods read or write (\<open>priority\<close>, \<open>createdBy\<close>, \<open>nextRetryAt\<close> and the mongoose
  timestamps are read by none of them and are left out). \<open>doc_id\<close> is \<open>_id\<close> as a
  string; \<open>doc_jobId\<close> is optional, as in \<open>ITask\<close>. \<open>doc_cancelledAt\<close> and
  \<open>doc_retryCount\<close> are the paths that \<open>cancelTask\<close> and \<open>updateTaskInDatabase\<close> name in
  their updates; the schema declares neither, and none of the properties below depends on
  them.
\<close>

record 'p task_doc =
  doc_id :: string
  doc_jobId :: "string option"
  doc_type :: string
  doc_payload :: 'p
  doc_status :: task_status
  doc_progress :: int
  doc_attempts :: nat
  doc_maxAttempts :: int
  doc_createdAt :: time
  doc_startedAt :: "time option"
  doc_completedAt :: "time option"
  doc_failedAt :: "time option"
  doc_cancelledAt :: "time option"
  doc_result :: "string option"
  doc_error :: "string option"
  doc_retryCount :: nat

text \<open>
  \<^verbatim>\<open>taskSchema.methods.cancel = function() {
    if (this.status === 'pending' || this.status === 'processing') {
      this.status = 'cancelled'; this.completedAt = new Date(); return this.save();
    }
    return Promise.resolve(this);
  }\<close>
  The result is the document the promise resolves with, and whether \<open>save\<close> was called.
\<close>

definition cancel :: "time \<Rightarrow> 'p task_doc \<Rightarrow> 'p task_doc \<times> bool" where
  "cancel now this =
     (if doc_status this = Pending \<or> doc_status this = Processing
      then (this\<lparr>doc_status := Cancelled, doc_completedAt := Some now\<rparr>, True)
      else (this, False))"

text \<open>
  \<open>Model.findOneAndUpdate(query, update)\<close> on a collection kept as a list: the first
  document matching the query is updated, and a query that matches nothing changes nothing.
\<close>

fun findOneAndUpdate :: "('d \<Rightarrow> bool) \<Rightarrow> ('d \<Rightarrow> 'd) \<Rightarrow> 'd list \<Rightarrow> 'd list" where
  "findOneAndUpdate query upd [] = []"
| "findOneAndUpdate query upd (d # ds) =
     (if query d then upd d # ds else d # findOneAndUpdate query upd ds)"

section \<open>The in-memory task queue (MemoryTaskQueue)\<close>

text \<open>
  \<open>interface TaskJob\<close>. The payload is \<open>any\<close> in the source: a type parameter here, compared
  only through \<open>JSON.stringify\<close>, which the functions below take as the parameter
  \<open>stringify\<close>. \<open>attempts\<close> starts at 0 (or at a persisted value the schema keeps at
  0 or more) and is only ever incremented: a natural number. \<open>maxAttempts\<close> is any number
  the caller passes: an integer.
\<close>

record 'p TaskJob =
  job_id :: string
  job_type :: string
  payload :: 'p
  status :: task_status
  progress :: int
  createdAt :: time
  startedAt :: "time option"
  completedAt :: "time option"
  failedAt :: "time option"
  result :: "string option"
  error :: "string option"
  attempts :: nat
  maxAttempts :: int

text \<open>
  The state of a \<open>MemoryTaskQueue\<close>: its fields \<open>queue\<close>, \<open>processing\<close> (a \<open>Set\<close> of
  job ids, kept as a duplicate-free list in insertion order), \<open>concurrency\<close> and
  \<open>isRunning\<close>; and what the object reaches beyond its fields:
  \<^item> \<open>running\<close>: the jobs whose \<open>processJob\<close> call is suspended on its handler;
  \<^item> \<open>timers\<close>: the pending \<open>setTimeout\<close> callbacks of the retry path, each with its
    delay in milliseconds and the job it will put back;
  \<^item> \<open>db\<close>: the \<open>Task\<close> collection;
  \<^item> \<open>emitted\<close>: the events emitted so far, each with the job as it was then.
\<close>

record 'p scheduler =
  queue :: "'p TaskJob list"
  processing :: "string list"
  concurrency :: int
  isRunning :: bool
  running :: "'p TaskJob list"
  timers :: "(nat \<times> 'p TaskJob) list"
  db :: "'p task_doc list"
  emitted :: "(string \<times> 'p TaskJob) list"

text \<open>\<open>new MemoryTaskQueue(concurrency)\<close>, over a collection that already holds \<open>docs\<close>.\<close>

definition new_queue :: "int \<Rightarrow> 'p task_doc list \<Rightarrow> 'p scheduler" where
  "new_queue c docs =
     \<lparr>queue = [], processing = [], concurrency = c, isRunning = False, running = [],
      timers = [], db = docs, emitted = []\<rparr>"

definition set_add :: "'a \<Rightarrow> 'a list \<Rightarrow> 'a list" where
  "set_add x xs = (if x \<in> set xs then xs else xs @ [x])"

definition set_delete :: "'a \<Rightarrow> 'a list \<Rightarrow> 'a list" where
  "set_delete x xs = removeAll x xs"

definition emit :: "string \<Rightarrow> 'p TaskJob \<Rightarrow> 'p scheduler \<Rightarrow> 'p scheduler" where
  "emit name job s = s\<lparr>emitted := emitted s @ [(name, job)]\<rparr>"

text \<open>
  \<open>updateTaskInDatabase\<close>: the query is by \<open>jobId\<close> for an id that starts with \<open>task_\<close>
  and by \<open>_id\<close> otherwise; a rejected database call is caught and logged, so with the
  database down (\<open>dbUp\<close> false) nothing changes.
\<close>

definition task_query :: "string \<Rightarrow> 'p task_doc \<Rightarrow> bool" where
  "task_query jid d = (if prefix ''task_'' jid then doc_jobId d = Some jid else doc_id d = jid)"

definition task_update :: "'p TaskJob \<Rightarrow> 'p task_doc \<Rightarrow> 'p task_doc" where
  "task_update job d =
     d\<lparr>doc_status := status job, doc_progress := progress job,
       doc_startedAt := startedAt job, doc_completedAt := completedAt job,
       doc_failedAt := failedAt job, doc_result := result job, doc_error := error job,
       doc_retryCount := doc_retryCount d + (if attempts job > 1 then 1 else 0)\<rparr>"

definition updateTaskInDatabase :: "bool \<Rightarrow> 'p TaskJob \<Rightarrow> 'p task_doc list \<Rightarrow> 'p task_doc list" where
  "updateTaskInDatabase dbUp job docs =
     (if dbUp then findOneAndUpdate (task_query (job_id job)) (task_update job) docs else docs)"

text \<open>
  The start of \<open>processJob\<close>, which runs inside the dispatch loop's call: the job is marked
  \<open>processing\<close>, \<open>jobStarted\<close> is emitted and the handler is entered.
\<close>

definition processJob_begin :: "time \<Rightarrow> 'p TaskJob \<Rightarrow> 'p scheduler \<Rightarrow> 'p scheduler" where
  "processJob_begin now job s =
     (let job1 = job\<lparr>status := Processing, startedAt := Some now, progress := 10\<rparr>;
          s1 = emit ''jobStarted'' job1 s
      in s1\<lparr>running := running s1 @ [job1]\<rparr>)"

text \<open>
  One iteration of the \<open>while (this.isRunning)\<close> loop of \<open>processQueue\<close>:
  \<^verbatim>\<open>if (this.processing.size < this.concurrency && this.queue.length > 0) {
    const job = this.queue.shift();
    if (job && job.status === 'pending') { this.processing.add(job.id); this.processJob(job)... }
  }\<close>
\<close>

definition processQueue_iteration :: "time \<Rightarrow> 'p scheduler \<Rightarrow> 'p scheduler" where
  "processQueue_iteration now s =
     (if isRunning s \<and> int (length (processing s)) < concurrency s \<and> length (queue s) > 0
      then (case queue s of
              [] \<Rightarrow> s
            | job # rest \<Rightarrow>
                if status job = Pending
                then processJob_begin now job
                       (s\<lparr>queue := rest, processing := set_add (job_id job) (processing s)\<rparr>)
                else s\<lparr>queue := rest\<rparr>)
      else s)"

text \<open>
  How a handler ends: it returns a result, or it throws with a message, having left the
  job's \<open>progress\<close> at some value. The \<open>switch\<close> of \<open>processJob\<close> knows four job types and
  throws on any other.
\<close>

datatype handler_outcome = Returns string | Throws string int

definition run_handler :: "'p TaskJob \<Rightarrow> handler_outcome \<Rightarrow> handler_outcome" where
  "run_handler job outcome =
     (if job_type job = ''article_save'' \<or> job_type job = ''paste_save''
         \<or> job_type job = ''batch_process'' \<or> job_type job = ''cleanup''
      then outcome
      else Throws ''unknown task type'' (progress job))"

text \<open>
  The retry delay of the \<open>catch\<close> block:
  \<^verbatim>\<open>Math.min(5000 * Math.pow(2, job.attempts), 60000)\<close>, read after \<open>job.attempts++\<close>.
\<close>

definition retry_delay :: "nat \<Rightarrow> nat" where
  "retry_delay n = min (5000 * 2 ^ n) 60000"

definition same_task :: "('p \<Rightarrow> string) \<Rightarrow> 'p TaskJob \<Rightarrow> 'p TaskJob \<Rightarrow> bool" where
  "same_task stringify job j =
     (job_type j = job_type job \<and> stringify (payload j) = stringify (payload job))"

text \<open>
  The rest of \<open>processJob\<close>, from the handler's end to the end of the \<open>finally\<close> block, as
  one step: the \<open>await\<close>s in it wait for \<open>updateTaskInDatabase\<close> only.
\<close>

definition processJob_settle ::
  "('p \<Rightarrow> string) \<Rightarrow> time \<Rightarrow> bool \<Rightarrow> handler_outcome \<Rightarrow> 'p TaskJob \<Rightarrow> 'p scheduler \<Rightarrow> 'p scheduler" where
  "processJob_settle stringify now dbUp outcome job s =
     (case run_handler job outcome of
        Returns r \<Rightarrow>
          (let job1 = job\<lparr>status := Completed, progress := 100, completedAt := Some now,
                         result := Some r\<rparr>;
               s1 = emit ''jobCompleted'' job1 s;
               s2 = s1\<lparr>processing := set_delete (job_id job) (processing s1)\<rparr>
           in s2\<lparr>db := updateTaskInDatabase dbUp job1 (db s2)\<rparr>)
      | Throws msg left \<Rightarrow>
          (let job1 = job\<lparr>progress := left, attempts := Suc (attempts job)\<rparr> in
           if int (attempts job1) \<ge> maxAttempts job1
           then (let job2 = job1\<lparr>status := Failed, failedAt := Some now, error := Some msg\<rparr>;
                     s1 = emit ''jobFailed'' job2 s;
                     s2 = s1\<lparr>db := updateTaskInDatabase dbUp job2 (db s1)\<rparr>;
                     s3 = s2\<lparr>processing := set_delete (job_id job) (processing s2)\<rparr>
                 in s3\<lparr>db := updateTaskInDatabase dbUp job2 (db s3)\<rparr>)
           else (let job2 = job1\<lparr>status := Pending, progress := 0\<rparr>;
                     delay = retry_delay (attempts job2);
                     existingJob = find (same_task stringify job2) (queue s)
                 in (case existingJob of
                       None \<Rightarrow>
                         (let s1 = s\<lparr>db := updateTaskInDatabase dbUp job2 (db s)\<rparr>;
                              s2 = s1\<lparr>timers := timers s1 @ [(delay, job2)]\<rparr>;
                              s3 = emit ''jobRetry'' job2 s2
                          in s3\<lparr>processing := set_delete (job_id job) (processing s3)\<rparr>)
                     | Some _ \<Rightarrow>
                         (let s1 = s\<lparr>db := updateTaskInDatabase dbUp job2 (db s)\<rparr>
                          in s1\<lparr>processing := set_delete (job_id job) (processing s1)\<rparr>)))))"

text \<open>The handler of the \<open>i\<close>-th suspended \<open>processJob\<close> call ends.\<close>

definition settle :: "('p \<Rightarrow> string) \<Rightarrow> nat \<Rightarrow> handler_outcome \<Rightarrow> time \<Rightarrow> bool \<Rightarrow> 'p scheduler \<Rightarrow> 'p scheduler" where
  "settle stringify i outcome now dbUp s =
     (if i < length (running s)
      then processJob_settle stringify now dbUp outcome (running s ! i)
             (s\<lparr>running := take i (running s) @ drop (Suc i) (running s)\<rparr>)
      else s)"

text \<open>
  The \<open>i\<close>-th pending retry timer fires: \<open>this.queue.unshift(job)\<close>.
\<close>

definition timer_fires :: "nat \<Rightarrow> 'p scheduler \<Rightarrow> 'p scheduler" where
  "timer_fires i s =
     (if i < length (timers s)
      then s\<lparr>queue := snd (timers s ! i) # queue s,
             timers := take i (timers s) @ drop (Suc i) (timers s)\<rparr>
      else s)"

text \<open>
  \<open>addTask(type, payload, options)\<close>. The job id is \<open>task_\<close> followed by the time and a
  random string (\<open>stamp\<close>); \<open>options.maxAttempts || 3\<close> takes 3 for a missing or zero
  option. \<open>task.save()\<close> comes before the push: a save that rejects (the schema's \<open>enum\<close>
  of types, or the database being down) makes \<open>addTask\<close> throw with nothing enqueued.
  The new document has the schema's defaults: \<open>attempts\<close> 0 and \<open>maxAttempts\<close> 3.
\<close>

datatype queue_error = SaveRejected | UpdateRejected

definition task_types :: "string list" where
  "task_types = [''article_save'', ''article_update'', ''batch_process'', ''cleanup'', ''paste_save'']"

definition addTask ::
  "string \<Rightarrow> 'p \<Rightarrow> int option \<Rightarrow> time \<Rightarrow> string \<Rightarrow> string \<Rightarrow> bool \<Rightarrow> 'p scheduler
   \<Rightarrow> (queue_error + string) \<times> 'p scheduler" where
  "addTask type pl opt_maxAttempts now stamp oid dbUp s =
     (let jobId = ''task_'' @ stamp;
          job = \<lparr>job_id = jobId, job_type = type, payload = pl, status = Pending,
                 progress = 0, createdAt = now, startedAt = None, completedAt = None,
                 failedAt = None, result = None, error = None, attempts = 0,
                 maxAttempts = (case opt_maxAttempts of
                                  None \<Rightarrow> 3
                                | Some m \<Rightarrow> if m = 0 then 3 else m)\<rparr>;
          task = \<lparr>doc_id = oid, doc_jobId = Some jobId, doc_type = type, doc_payload = pl,
                  doc_status = Pending, doc_progress = 0, doc_attempts = 0, doc_maxAttempts = 3,
                  doc_createdAt = now, doc_startedAt = None, doc_completedAt = None,
                  doc_failedAt = None, doc_cancelledAt = None, doc_result = None,
                  doc_error = None, doc_retryCount = 0\<rparr>
      in if dbUp \<and> type \<in> set task_types
         then (Inr jobId, emit ''jobAdded'' job (s\<lparr>db := db s @ [task], queue := queue s @ [job]\<rparr>))
         else (Inl SaveRejected, s))"

text \<open>
  \<open>loadPendingTasks\<close>: the pending documents of type \<open>paste_save\<close> or \<open>article_save\<close>,
  oldest first, at most 100, each pushed as a job whose id is
  \<open>task.jobId || task._id.toString()\<close>, with \<open>task.attempts || 0\<close> attempts and
  \<open>task.maxAttempts || 3\<close> as the bound. A failing query is caught and logged.
\<close>

definition job_of_doc :: "'p task_doc \<Rightarrow> 'p TaskJob" where
  "job_of_doc task =
     \<lparr>job_id = (case doc_jobId task of
                  None \<Rightarrow> doc_id task
                | Some j \<Rightarrow> if j = [] then doc_id task else j),
      job_type = doc_type task, payload = doc_payload task, status = Pending,
      progress = doc_progress task, createdAt = doc_createdAt task, startedAt = None,
      completedAt = None, failedAt = None, result = None, error = None,
      attempts = doc_attempts task,
      maxAttempts = (if doc_maxAttempts task = 0 then 3 else doc_maxAttempts task)\<rparr>"

definition loadable :: "'p task_doc \<Rightarrow> bool" where
  "loadable d = (doc_status d = Pending \<and> (doc_type d = ''paste_save'' \<or> doc_type d = ''article_save''))"

definition loadPendingTasks :: "bool \<Rightarrow> 'p scheduler \<Rightarrow> 'p scheduler" where
  "loadPendingTasks dbUp s =
     (if dbUp
      then s\<lparr>queue := queue s @ map job_of_doc (take 100 (sort_key doc_createdAt (filter loadable (db s))))\<rparr>
      else s)"

definition start :: "'p scheduler \<Rightarrow> 'p scheduler" where
  "start s = (if isRunning s then s else s\<lparr>isRunning := True\<rparr>)"

definition stop :: "'p scheduler \<Rightarrow> 'p scheduler" where
  "stop s = s\<lparr>isRunning := False\<rparr>"

definition initialize :: "bool \<Rightarrow> 'p scheduler \<Rightarrow> 'p scheduler" where
  "initialize dbUp s = loadPendingTasks dbUp (start s)"

text \<open>
  \<open>cancelTask(jobId)\<close>. \<open>findIndex\<close> gives the first queued job with this id and status
  \<open>pending\<close>; it is spliced out and marked \<open>cancelled\<close>, the collection is updated by the
  query \<open>{ jobId: jobId }\<close>, and \<open>jobCancelled\<close> is emitted. The database call is awaited
  outside any \<open>try\<close>: if it rejects, \<open>cancelTask\<close> throws after the splice.
\<close>

fun findIndex :: "('a \<Rightarrow> bool) \<Rightarrow> 'a list \<Rightarrow> nat option" where
  "findIndex P [] = None"
| "findIndex P (x # xs) = (if P x then Some 0 else map_option Suc (findIndex P xs))"

definition cancellable :: "string \<Rightarrow> 'p TaskJob \<Rightarrow> bool" where
  "cancellable jobId job = (job_id job = jobId \<and> status job = Pending)"

definition cancelTask ::
  "string \<Rightarrow> time \<Rightarrow> bool \<Rightarrow> 'p scheduler \<Rightarrow> (queue_error + bool) \<times> 'p scheduler" where
  "cancelTask jobId now dbUp s =
     (case findIndex (cancellable jobId) (queue s) of
        Some jobIndex \<Rightarrow>
          (let job = (queue s ! jobIndex)\<lparr>status := Cancelled\<rparr>;
               s1 = s\<lparr>queue := take jobIndex (queue s) @ drop (Suc jobIndex) (queue s)\<rparr>
           in if dbUp
              then (Inr True,
                    emit ''jobCancelled'' job
                      (s1\<lparr>db := findOneAndUpdate (\<lambda>d. doc_jobId d = Some jobId)
                                  (\<lambda>d. d\<lparr>doc_status := Cancelled, doc_cancelledAt := Some now\<rparr>)
                                  (db s1)\<rparr>))
              else (Inl UpdateRejected, s1))
      | None \<Rightarrow> (Inr False, s))"

text \<open>
  What can happen to a queue, one call or callback at a time; \<open>run\<close> plays a list of them.
\<close>

datatype 'p action =
    Submit string 'p "int option" time string string bool
  | Tick time
  | Settle nat handler_outcome time bool
  | TimerFires nat
  | Cancel string time bool
  | Initialize bool
  | Start
  | Stop

fun step :: "('p \<Rightarrow> string) \<Rightarrow> 'p action \<Rightarrow> 'p scheduler \<Rightarrow> 'p scheduler" where
  "step stringify (Submit type pl m now stamp oid dbUp) s =
     snd (addTask type pl m now stamp oid dbUp s)"
| "step stringify (Tick now) s = processQueue_iteration now s"
| "step stringify (Settle i outcome now dbUp) s = settle stringify i outcome now dbUp s"
| "step stringify (TimerFires i) s = timer_fires i s"
| "step stringify (Cancel jobId now dbUp) s = snd (cancelTask jobId now dbUp s)"
| "step stringify (Initialize dbUp) s = initialize dbUp s"
| "step stringify Start s = start s"
| "step stringify Stop s = stop s"

definition run :: "('p \<Rightarrow> string) \<Rightarrow> 'p action list \<Rightarrow> 'p scheduler \<Rightarrow> 'p scheduler" where
  "run stringify acts s = fold (step stringify) acts s"

subsection \<open>The bound on attempts, as predicates on jobs and queues\<close>

definition within_attempts :: "'p TaskJob \<Rightarrow> bool" where
  "within_attempts j = (int (attempts j) \<le> maxAttempts j)"

definition below_attempts :: "'p TaskJob \<Rightarrow> bool" where
  "below_attempts j = (int (attempts j) < maxAttempts j)"

definition failed_or_below :: "'p TaskJob \<Rightarrow> bool" where
  "failed_or_below j = (within_attempts j \<and> (below_attempts j \<or> status j = Failed))"

definition observed_jobs :: "'p scheduler \<Rightarrow> 'p TaskJob list" where
  "observed_jobs s = queue s @ running s @ map snd (timers s) @ map snd (emitted s)"

definition sane_submit :: "'p action \<Rightarrow> bool" where
  "sane_submit a = (case a of Submit ty pl (Some m) now stamp oid dbUp \<Rightarrow> 0 \<le> m | _ \<Rightarrow> True)"

definition attempts_inv :: "'p scheduler \<Rightarrow> bool" where
  "attempts_inv s =
     (list_all below_attempts (queue s) \<and> list_all below_attempts (running s)
      \<and> list_all (\<lambda>t. below_attempts (snd t)) (timers s)
      \<and> list_all (\<lambda>e. failed_or_below (snd e)) (emitted s)
      \<and> list_all (\<lambda>d. below_attempts (job_of_doc d)) (db s))"


subsection \<open>Concrete runs used to exercise the theorems\<close>







definition always_blocked :: "nat \<Rightarrow> unit CrawlResult" where
  "always_blocked n = failure (AccessDenied Article) 451"



definition two_jobs :: "string action list" where
  "two_jobs = [Submit ''article_save'' ''p'' None 0 ''a'' ''o1'' True,
               Submit ''article_save'' ''q'' None 0 ''b'' ''o2'' True, Start, Tick 1, Tick 2]"

definition one_failure :: "string action list" where
  "one_failure = [Submit ''article_save'' ''p'' (Some 1) 0 ''a'' ''o1'' True, Start, Tick 1,
       Settle 0 (Throws ''blocked'' 30) 2 True]"

definition blocked_job :: "string TaskJob" where
  "blocked_job = \<lparr>job_id = ''task_a'', job_type = ''article_save'', payload = ''p'',
      status = Processing, progress = 10, createdAt = 0, startedAt = Some 1, completedAt = None,
      failedAt = None, result = None, error = None, attempts = 0, maxAttempts = 3\<rparr>"

definition submitted :: "string scheduler" where
  "submitted = run (\<lambda>p. p) [Submit ''article_save'' ''p'' None 0 ''a'' ''o1'' True] (new_queue 3 [])"

definition finished :: "string scheduler" where
  "finished = run (\<lambda>p. p) [Submit ''article_save'' ''p'' None 0 ''a'' ''o1'' True, Start, Tick 1,
                 Settle 0 (Returns ''saved'') 2 True] (new_queue 3 [])"

definition in_flight :: "string scheduler" where
  "in_flight = run (\<lambda>p. p) [Submit ''article_save'' ''p'' None 0 ''a'' ''o1'' True, Start, Tick 1]
                 (new_queue 3 [])"

definition in_flight_doc :: "string task_doc" where
  "in_flight_doc = \<lparr>doc_id = ''65f0c0ffef'', doc_jobId = Some ''task_a'', doc_type = ''article_save'',
      doc_payload = ''p'', doc_status = Processing, doc_progress = 10, doc_attempts = 0,
      doc_maxAttempts = 3, doc_createdAt = 7, doc_startedAt = Some 8, doc_completedAt = None,
      doc_failedAt = None, doc_cancelledAt = None, doc_result = None, doc_error = None,
      doc_retryCount = 0\<rparr>"


section \<open>Properties of truncateUtf8\<close>

lemma strip_continuation_prefix: "prefix (strip_continuation xs) xs"
proof (induction xs rule: strip_continuation.induct)
  case (1 truncated)
  show ?case
  proof (cases "length truncated > 0 \<and> (last truncated AND 0xC0) = 0x80")
    case True
    then have "prefix (strip_continuation (butlast truncated)) (butlast truncated)"
      using "1.IH" by simp
    moreover have "prefix (butlast truncated) truncated"
      by (simp add: prefixeq_butlast)
    ultimately have "prefix (strip_continuation (butlast truncated)) truncated"
      by (rule prefix_order.trans)
    then show ?thesis
      using True by (subst strip_continuation.simps) simp
  next
    case False
    then show ?thesis
      by (subst strip_continuation.simps) auto
  qed
qed

lemma truncateUtf8_prefix: "prefix (truncateUtf8 text maxLength) text"
proof (cases "text = [] \<or> int (length text) \<le> maxLength")
  case True
  then show ?thesis by (auto simp: truncateUtf8_def)
next
  case False
  have "prefix (strip_continuation (take (nat maxLength) text)) (take (nat maxLength) text)"
    by (rule strip_continuation_prefix)
  moreover have "prefix (take (nat maxLength) text) text"
    by (rule take_is_prefix)
  ultimately have "prefix (strip_continuation (take (nat maxLength) text)) text"
    by (rule prefix_order.trans)
  then show ?thesis using False by (simp add: truncateUtf8_def)
qed

lemma truncateUtf8_length:
  "0 \<le> maxLength \<Longrightarrow> int (length (truncateUtf8 text maxLength)) \<le> maxLength"
proof (cases "text = [] \<or> int (length text) \<le> maxLength")
  case True
  assume "0 \<le> maxLength"
  with True show ?thesis by (auto simp: truncateUtf8_def)
next
  case False
  assume nonneg: "0 \<le> maxLength"
  have "length (strip_continuation (take (nat maxLength) text)) \<le> length (take (nat maxLength) text)"
    using strip_continuation_prefix prefix_length_le by blast
  also have "\<dots> \<le> nat maxLength" by simp
  finally show ?thesis using False nonneg by (simp add: truncateUtf8_def)
qed

lemma truncateUtf8_idem:
  "truncateUtf8 (truncateUtf8 text maxLength) maxLength = truncateUtf8 text maxLength"
proof (cases "0 \<le> maxLength")
  case True
  then have "int (length (truncateUtf8 text maxLength)) \<le> maxLength"
    by (rule truncateUtf8_length)
  then show ?thesis by (simp add: truncateUtf8_def [of "truncateUtf8 text maxLength"])
next
  case False
  have empty: "strip_continuation [] = []"
    by (subst strip_continuation.simps) simp
  from False have "truncateUtf8 text maxLength = []"
    by (auto simp: truncateUtf8_def empty)
  then show ?thesis by (simp add: truncateUtf8_def)
qed

text \<open>
  C1. The claim: for every string and limit the result of \<open>truncateUtf8\<close> never cuts a
  character in two and is at most the limit long. The code tests each trailing UTF-16 code
  unit with the UTF-8 continuation-byte mask, which a high surrogate (D83D: bits 0x3D under
  the mask 0xC0 give 0) does not match. On the letter a followed by U+1F600 (the units 0061
  D83D DE00) with limit 2 the cut falls between the two surrogates and the loop keeps the
  lone high surrogate: the input is well formed, the result is not.
\<close>

theorem truncateUtf8_splits_surrogate_pair:
  "well_formed_utf16 [0x61, 0xD83D, 0xDE00]
   \<and> truncateUtf8 [0x61, 0xD83D, 0xDE00] 2 = [0x61, 0xD83D]
   \<and> \<not> well_formed_utf16 (truncateUtf8 [0x61, 0xD83D, 0xDE00] 2)"
proof -
  have cut: "truncateUtf8 [0x61, 0xD83D, 0xDE00] 2 = [0x61, 0xD83D]"
    by (simp add: truncateUtf8_def strip_continuation.simps [of "[0x61, 0xD83D]"])
  show ?thesis
    unfolding cut by (simp add: is_high_surrogate_def is_low_surrogate_def)
qed

text \<open>
  C10. For every string and every limit, \<open>truncateUtf8\<close> returns a prefix of its input;
  when the input is empty or no longer than the limit it is returned unchanged; and
  truncating a second time with the same limit changes nothing.
\<close>

theorem truncateUtf8_prefix_identity:
  "prefix (truncateUtf8 text maxLength) text
   \<and> (text = [] \<or> int (length text) \<le> maxLength \<longrightarrow> truncateUtf8 text maxLength = text)
   \<and> truncateUtf8 (truncateUtf8 text maxLength) maxLength = truncateUtf8 text maxLength"
  using truncateUtf8_prefix [of "text" maxLength] truncateUtf8_idem [of "text" maxLength]
  by (simp add: truncateUtf8_def)

theorem truncateUtf8_prefix_identity_witness:
  "int (length [0x61, 0x62 :: 16 word]) \<le> 5
   \<and> truncateUtf8 [0x61, 0x62] 5 = [0x61, 0x62]
   \<and> prefix (truncateUtf8 [0x61, 0x62] 5) [0x61, 0x62]"
  using truncateUtf8_prefix_identity [of "[0x61, 0x62]" 5] by simp

section \<open>Properties of the session fetcher\<close>













section \<open>Properties of the crawl operations\<close>

lemma crawlArticle_result:
  "(\<exists>resp. fst (crawlArticle net page fixed articleId cookie) = respond Article page resp)
   \<or> (\<exists>e. fst (crawlArticle net page fixed articleId cookie) = caught e)"
  by (auto simp: crawlArticle_def Let_def split: prod.splits sum.splits)

lemma crawlPaste_result:
  "(\<exists>resp. fst (crawlPaste net page fixed pasteId cookie) = respond Paste page resp)
   \<or> (\<exists>e. fst (crawlPaste net page fixed pasteId cookie) = caught e)"
  by (auto simp: crawlPaste_def Let_def split: prod.splits sum.splits)




section \<open>Properties of the direct-save retry loop\<close>

lemma blocked_then_next:
  assumes "int attempt \<le> maxRetries" "\<not> success (crawl attempt)" "statusCode (crawl attempt) = Some 451"
  shows "attempt_loop crawl store jitter maxRetries attempt lastError zs
         = attempt_loop crawl store jitter maxRetries (Suc attempt)
             (Some (ErrorObject (message (crawl attempt))))
             (zs @ [jitter attempt, attempt * 5000])"
  using assms by (subst attempt_loop.simps) (simp add: Let_def)

lemma other_failure_returns:
  assumes "int attempt \<le> maxRetries" "\<not> success (crawl attempt)" "statusCode (crawl attempt) \<noteq> Some 451"
  shows "attempt_loop crawl store jitter maxRetries attempt lastError zs
         = \<lparr>returned = \<lparr>saved = False,
                        save_message = Text (case message (crawl attempt) of
                                               None \<Rightarrow> CrawlFailed | Some m \<Rightarrow> m),
                        save_data = None\<rparr>,
            attempts_made = attempt, slept = zs @ [jitter attempt]\<rparr>"
  using assms by (subst attempt_loop.simps) (simp add: Let_def)

lemma created_returns:
  assumes "int attempt \<le> maxRetries" "success (crawl attempt)" "store attempt = Created doc"
  shows "attempt_loop crawl store jitter maxRetries attempt lastError zs
         = \<lparr>returned = \<lparr>saved = True, save_message = Text ArticleSaved, save_data = Some doc\<rparr>,
            attempts_made = attempt, slept = zs @ [jitter attempt]\<rparr>"
  using assms by (subst attempt_loop.simps) (simp add: Let_def)

lemma exhausted_returns:
  assumes "\<not> int attempt \<le> maxRetries"
  shows "attempt_loop crawl store jitter maxRetries attempt lastError zs
         = \<lparr>returned = \<lparr>saved = False,
                        save_message = (case lastError of None \<Rightarrow> Text SaveFailed | Some e \<Rightarrow> e),
                        save_data = None\<rparr>,
            attempts_made = attempt - 1, slept = zs\<rparr>"
  using assms by (subst attempt_loop.simps) simp

lemma blocked_twice_then_saved:
  assumes "3 \<le> maxRetries"
    and "\<not> success (crawl 1)" "statusCode (crawl 1) = Some 451"
    and "\<not> success (crawl 2)" "statusCode (crawl 2) = Some 451"
    and "success (crawl 3)" "store 3 = Created doc"
  shows "saveArticleDirectly crawl store jitter maxRetries
         = \<lparr>returned = \<lparr>saved = True, save_message = Text ArticleSaved, save_data = Some doc\<rparr>,
            attempts_made = 3, slept = [jitter 1, 5000, jitter 2, 10000, jitter 3]\<rparr>"
    and "1 * 5000 + 2 * 5000 \<le> sum_list (slept (saveArticleDirectly crawl store jitter maxRetries))"
proof -
  have "saveArticleDirectly crawl store jitter maxRetries
        = attempt_loop crawl store jitter maxRetries 2 (Some (ErrorObject (message (crawl 1))))
            [jitter 1, 5000]"
    using assms blocked_then_next [of 1 maxRetries crawl store jitter None "[]"]
    by (simp add: saveArticleDirectly_def numeral_2_eq_2)
  also have "\<dots> = attempt_loop crawl store jitter maxRetries 3
                     (Some (ErrorObject (message (crawl 2)))) [jitter 1, 5000, jitter 2, 10000]"
    using assms blocked_then_next [of 2 maxRetries crawl store jitter
                  "Some (ErrorObject (message (crawl 1)))" "[jitter 1, 5000]"]
    by (simp add: numeral_3_eq_3 numeral_2_eq_2)
  also have "\<dots> = \<lparr>returned = \<lparr>saved = True, save_message = Text ArticleSaved, save_data = Some doc\<rparr>,
            attempts_made = 3, slept = [jitter 1, 5000, jitter 2, 10000, jitter 3]\<rparr>"
    using assms created_returns [of 3 maxRetries crawl store doc jitter
                  "Some (ErrorObject (message (crawl 2)))" "[jitter 1, 5000, jitter 2, 10000]"]
    by simp
  finally show run: "saveArticleDirectly crawl store jitter maxRetries
         = \<lparr>returned = \<lparr>saved = True, save_message = Text ArticleSaved, save_data = Some doc\<rparr>,
            attempts_made = 3, slept = [jitter 1, 5000, jitter 2, 10000, jitter 3]\<rparr>" .
  show "1 * 5000 + 2 * 5000 \<le> sum_list (slept (saveArticleDirectly crawl store jitter maxRetries))"
    unfolding run by simp
qed


lemma attempts_made_bound:
  "attempts_made (attempt_loop crawl store jitter maxRetries attempt lastError zs)
     \<le> max (attempt - 1) (nat maxRetries)"
proof (induction crawl store jitter maxRetries attempt lastError zs rule: attempt_loop.induct)
  case (1 crawl store jitter maxRetries attempt lastError zs)
  show ?case
  proof (cases "int attempt \<le> maxRetries")
    case False
    then show ?thesis by (subst attempt_loop.simps) simp
  next
    case True
    note le = True
    show ?thesis
    proof (cases "success (crawl attempt)")
      case False
      show ?thesis
      proof (cases "statusCode (crawl attempt) = Some 451")
        case True
        have "attempts_made (attempt_loop crawl store jitter maxRetries (Suc attempt)
                 (Some (ErrorObject (message (crawl attempt))))
                 ((zs @ [jitter attempt]) @ [attempt * 5000]))
              \<le> max (Suc attempt - 1) (nat maxRetries)"
          using "1.IH"(1) [OF le refl refl] False True by simp
        then show ?thesis
          using le False True by (subst attempt_loop.simps) (simp add: Let_def)
      next
        case other: False
        then show ?thesis
          using le False by (subst attempt_loop.simps) (simp add: Let_def)
      qed
    next
      case ok: True
      show ?thesis
      proof (cases "store attempt")
        case (Updated doc)
        then show ?thesis using le ok by (subst attempt_loop.simps) (simp add: Let_def)
      next
        case (Created doc)
        then show ?thesis using le ok by (subst attempt_loop.simps) (simp add: Let_def)
      next
        case (StoreThrows m)
        show ?thesis
        proof (cases "blocked_text m")
          case True
          have "attempts_made (attempt_loop crawl store jitter maxRetries (Suc attempt)
                 (Some (Text (if truthy m then Verbatim (the m) else SaveFailed)))
                 ((zs @ [jitter attempt]) @ [attempt * 5000]))
              \<le> max (Suc attempt - 1) (nat maxRetries)"
            using "1.IH"(2) [OF le refl refl _ StoreThrows True] ok by simp
          then show ?thesis
            using le ok StoreThrows True by (subst attempt_loop.simps) (simp add: Let_def)
        next
          case False
          then show ?thesis
            using le ok StoreThrows by (subst attempt_loop.simps) (simp add: Let_def)
        qed
      qed
    qed
  qed
qed

lemma saveArticleDirectly_attempts:
  "attempts_made (saveArticleDirectly crawl store jitter maxRetries) \<le> nat maxRetries"
  using attempts_made_bound [of crawl store jitter maxRetries 1 None "[]"]
  by (simp add: saveArticleDirectly_def)

text \<open>
  C7. The loop makes at most \<open>maxRetries\<close> attempts (\<open>saveArticleDirectly_attempts\<close>),
  retries a 451 outcome after
  \<open>attempt * 5000\<close> milliseconds (\<open>blocked_then_next\<close>), returns any other failed outcome at
  once with its message (\<open>other_failure_returns\<close>), and after 451 on attempts 1 and 2 saves
  on attempt 3 with at least \<open>1 * 5000 + 2 * 5000\<close> milliseconds slept
  (\<open>blocked_twice_then_saved\<close>). What it returns when every attempt ends in 451 is not the
  last failure message: \<open>lastError\<close> was set to \<open>new Error(crawlResult.message)\<close>, and
  \<open>message\<close> is that \<open>Error\<close> object, where the \<open>catch\<close> block of the same loop stores
  \<open>error.message\<close> and the declared result type has \<open>message: string\<close>. With three
  attempts and a target that always answers 451:
\<close>

theorem exhausted_retries_return_error_object:
  "returned (saveArticleDirectly always_blocked (\<lambda>n. Created ()) (\<lambda>n. 1000) 3)
     = \<lparr>saved = False, save_message = ErrorObject (Some (AccessDenied Article)), save_data = None\<rparr>
   \<and> save_message (returned (saveArticleDirectly always_blocked (\<lambda>n. Created ()) (\<lambda>n. 1000) 3))
       \<noteq> Text (AccessDenied Article)
   \<and> attempts_made (saveArticleDirectly always_blocked (\<lambda>n. Created ()) (\<lambda>n. 1000) 3) = 3
   \<and> slept (saveArticleDirectly always_blocked (\<lambda>n. Created ()) (\<lambda>n. 1000) 3)
       = [1000, 5000, 1000, 10000, 1000, 15000]"
  by (simp add: saveArticleDirectly_def always_blocked_def failure_def Let_def
        attempt_loop.simps [of _ _ _ 3 "Suc 0"] attempt_loop.simps [of _ _ _ 3 "Suc (Suc 0)"]
        attempt_loop.simps [of _ _ _ 3 "Suc (Suc (Suc 0))"]
        attempt_loop.simps [of _ _ _ 3 "Suc (Suc (Suc (Suc 0)))"])


section \<open>Properties of the in-memory task queue\<close>

lemmas sched_defs = run_def new_queue_def addTask_def emit_def task_types_def start_def
  processQueue_iteration_def processJob_begin_def settle_def processJob_settle_def run_handler_def
  timer_fires_def updateTaskInDatabase_def task_query_def task_update_def set_add_def set_delete_def
  retry_delay_def same_task_def Let_def

lemma set_delete_length: "length (set_delete x xs) \<le> length xs"
  by (simp add: set_delete_def)

lemma set_add_length: "length (set_add x xs) \<le> Suc (length xs)"
  by (simp add: set_add_def)

lemma processJob_settle_processing:
  "processing (processJob_settle sfy now dbUp outcome job s) = set_delete (job_id job) (processing s)"
  by (simp add: processJob_settle_def emit_def Let_def split: handler_outcome.splits option.splits)

lemma processJob_settle_concurrency:
  "concurrency (processJob_settle sfy now dbUp outcome job s) = concurrency s"
  by (simp add: processJob_settle_def emit_def Let_def split: handler_outcome.splits option.splits)

lemma addTask_fields:
  "processing (snd (addTask ty pl m now stamp oid dbUp s)) = processing s"
  "concurrency (snd (addTask ty pl m now stamp oid dbUp s)) = concurrency s"
  by (simp_all add: addTask_def emit_def Let_def)

lemma cancelTask_fields:
  "processing (snd (cancelTask jobId now dbUp s)) = processing s"
  "concurrency (snd (cancelTask jobId now dbUp s)) = concurrency s"
  by (simp_all add: cancelTask_def emit_def Let_def split: option.splits)

lemma initialize_fields:
  "processing (initialize dbUp s) = processing s"
  "concurrency (initialize dbUp s) = concurrency s"
  by (simp_all add: initialize_def loadPendingTasks_def start_def)

lemma timer_fires_fields:
  "processing (timer_fires i s) = processing s"
  "concurrency (timer_fires i s) = concurrency s"
  by (simp_all add: timer_fires_def)

lemma processQueue_iteration_concurrency:
  "concurrency (processQueue_iteration now s) = concurrency s"
  by (simp add: processQueue_iteration_def processJob_begin_def emit_def Let_def split: list.splits)

lemma processQueue_iteration_processing:
  "processing (processQueue_iteration now s) =
     (if isRunning s \<and> int (length (processing s)) < concurrency s \<and> queue s \<noteq> []
         \<and> status (hd (queue s)) = Pending
      then set_add (job_id (hd (queue s))) (processing s)
      else processing s)"
proof (cases "queue s")
  case Nil
  then show ?thesis by (simp add: processQueue_iteration_def)
next
  case (Cons job rest)
  then show ?thesis
    by (simp add: processQueue_iteration_def processJob_begin_def emit_def Let_def)
qed

lemma step_concurrency: "concurrency (step sfy a s) = concurrency s"
  by (cases a)
     (simp_all add: addTask_fields cancelTask_fields initialize_fields timer_fires_fields
        processQueue_iteration_concurrency settle_def processJob_settle_concurrency
        start_def stop_def)

lemma step_processing_bound:
  assumes "int (length (processing s)) \<le> concurrency s"
  shows "int (length (processing (step sfy a s))) \<le> concurrency s"
proof (cases a)
  case (Tick now)
  have "length (set_add (job_id (hd (queue s))) (processing s)) \<le> Suc (length (processing s))"
    by (rule set_add_length)
  then show ?thesis
    using assms Tick by (simp add: processQueue_iteration_processing)
next
  case (Settle i outcome now dbUp)
  have "length (set_delete (job_id (running s ! i)) (processing s)) \<le> length (processing s)"
    by (rule set_delete_length)
  then show ?thesis
    using assms Settle by (simp add: settle_def processJob_settle_processing)
qed (simp_all add: assms addTask_fields cancelTask_fields initialize_fields timer_fires_fields
       start_def stop_def)

lemma step_processing_distinct:
  assumes "distinct (processing s)"
  shows "distinct (processing (step sfy a s))"
proof (cases a)
  case (Tick now)
  then show ?thesis
    using assms by (simp add: processQueue_iteration_processing set_add_def)
next
  case (Settle i outcome now dbUp)
  then show ?thesis
    using assms by (simp add: settle_def processJob_settle_processing set_delete_def distinct_removeAll)
qed (simp_all add: assms addTask_fields cancelTask_fields initialize_fields timer_fires_fields
       start_def stop_def)

lemma run_processing_distinct:
  "distinct (processing s) \<Longrightarrow> distinct (processing (run sfy acts s))"
  unfolding run_def
  by (induction acts arbitrary: s) (simp_all add: step_processing_distinct)

lemma run_concurrency: "concurrency (run sfy acts s) = concurrency s"
  unfolding run_def by (induction acts arbitrary: s) (simp_all add: step_concurrency)

lemma run_processing_bound:
  "int (length (processing s)) \<le> concurrency s \<Longrightarrow>
   int (length (processing (run sfy acts s))) \<le> concurrency s"
  unfolding run_def
proof (induction acts arbitrary: s)
  case Nil
  then show ?case by simp
next
  case (Cons a acts)
  have "int (length (processing (step sfy a s))) \<le> concurrency (step sfy a s)"
    using Cons.prems by (simp add: step_processing_bound step_concurrency)
  then have "int (length (processing (fold (step sfy) acts (step sfy a s)))) \<le> concurrency (step sfy a s)"
    by (rule Cons.IH)
  then show ?case by (simp add: step_concurrency)
qed

lemma findOneAndUpdate_all:
  "list_all P ds \<Longrightarrow> (\<And>d. P d \<Longrightarrow> P (upd d)) \<Longrightarrow> list_all P (findOneAndUpdate q upd ds)"
  by (induction ds) auto

lemma task_update_below:
  "below_attempts (job_of_doc (task_update job d)) = below_attempts (job_of_doc d)"
  by (simp add: below_attempts_def job_of_doc_def task_update_def)

lemma updateTaskInDatabase_below:
  "list_all (\<lambda>d. below_attempts (job_of_doc d)) ds \<Longrightarrow>
   list_all (\<lambda>d. below_attempts (job_of_doc d)) (updateTaskInDatabase dbUp job ds)"
  by (simp add: updateTaskInDatabase_def findOneAndUpdate_all task_update_below)

lemma below_failed_or_below: "below_attempts j \<Longrightarrow> failed_or_below j"
  by (simp add: failed_or_below_def below_attempts_def within_attempts_def)

lemma addTask_inv:
  assumes "attempts_inv s" and "case m of None \<Rightarrow> True | Some k \<Rightarrow> 0 \<le> k"
  shows "attempts_inv (snd (addTask ty pl m now stamp oid dbUp s))"
  using assms
  by (cases m)
     (simp_all add: addTask_def attempts_inv_def emit_def Let_def below_attempts_def
        failed_or_below_def within_attempts_def job_of_doc_def)

lemma list_all_take: "list_all P xs \<Longrightarrow> list_all P (take i xs)"
  by (auto simp: list_all_iff dest: in_set_takeD)

lemma list_all_drop: "list_all P xs \<Longrightarrow> list_all P (drop i xs)"
  by (auto simp: list_all_iff dest: in_set_dropD)

lemma below_attempts_status [simp]:
  "below_attempts (j\<lparr>status := st\<rparr>) = below_attempts j"
  "below_attempts (j\<lparr>progress := pr\<rparr>) = below_attempts j"
  "below_attempts (j\<lparr>startedAt := t1\<rparr>) = below_attempts j"
  "below_attempts (j\<lparr>completedAt := t2\<rparr>) = below_attempts j"
  "below_attempts (j\<lparr>failedAt := t3\<rparr>) = below_attempts j"
  "below_attempts (j\<lparr>result := r\<rparr>) = below_attempts j"
  "below_attempts (j\<lparr>error := e\<rparr>) = below_attempts j"
  by (simp_all add: below_attempts_def)

lemma within_attempts_status [simp]:
  "within_attempts (j\<lparr>status := st\<rparr>) = within_attempts j"
  "within_attempts (j\<lparr>progress := pr\<rparr>) = within_attempts j"
  "within_attempts (j\<lparr>startedAt := t1\<rparr>) = within_attempts j"
  "within_attempts (j\<lparr>completedAt := t2\<rparr>) = within_attempts j"
  "within_attempts (j\<lparr>failedAt := t3\<rparr>) = within_attempts j"
  "within_attempts (j\<lparr>result := r\<rparr>) = within_attempts j"
  "within_attempts (j\<lparr>error := e\<rparr>) = within_attempts j"
  by (simp_all add: within_attempts_def)

lemma cancel_update_below:
  "below_attempts (job_of_doc (d\<lparr>doc_status := st, doc_cancelledAt := t\<rparr>)) = below_attempts (job_of_doc d)"
  by (simp add: below_attempts_def job_of_doc_def)

lemma list_all_nth: "list_all P xs \<Longrightarrow> i < length xs \<Longrightarrow> P (xs ! i)"
  by (simp add: list_all_length)

lemma processQueue_iteration_inv:
  assumes "attempts_inv s"
  shows "attempts_inv (processQueue_iteration now s)"
proof (cases "queue s")
  case Nil
  then show ?thesis using assms by (simp add: processQueue_iteration_def)
next
  case (Cons job rest)
  then show ?thesis using assms
    by (simp add: processQueue_iteration_def processJob_begin_def emit_def Let_def
          attempts_inv_def below_failed_or_below)
qed

lemma processJob_settle_inv:
  assumes "attempts_inv s" and "below_attempts job"
  shows "attempts_inv (processJob_settle sfy now dbUp outcome job s)"
proof (cases "run_handler job outcome")
  case (Returns r)
  then show ?thesis using assms
    by (simp add: processJob_settle_def emit_def Let_def attempts_inv_def
          updateTaskInDatabase_below below_failed_or_below)
next
  case (Throws msg left)
  show ?thesis
  proof (cases "int (Suc (attempts job)) \<ge> maxAttempts job")
    case True
    then have "failed_or_below (job\<lparr>progress := left, attempts := Suc (attempts job),
                 status := Failed, failedAt := Some now, error := Some msg\<rparr>)"
      using assms(2) by (simp add: failed_or_below_def below_attempts_def within_attempts_def)
    then show ?thesis using assms True Throws
      by (simp add: processJob_settle_def emit_def Let_def attempts_inv_def
            updateTaskInDatabase_below)
  next
    case False
    then have below: "below_attempts (job\<lparr>progress := left, attempts := Suc (attempts job),
                 status := Pending, progress := 0\<rparr>)"
      by (simp add: below_attempts_def)
    show ?thesis
    proof (cases "find (same_task sfy (job\<lparr>progress := left, attempts := Suc (attempts job),
                 status := Pending, progress := 0\<rparr>)) (queue s)")
      case None
      then show ?thesis using assms False Throws below
        by (simp add: processJob_settle_def emit_def Let_def attempts_inv_def
              updateTaskInDatabase_below below_failed_or_below)
    next
      case (Some j)
      then show ?thesis using assms False Throws
        by (simp add: processJob_settle_def Let_def attempts_inv_def
              updateTaskInDatabase_below)
    qed
  qed
qed

lemma settle_inv:
  assumes "attempts_inv s"
  shows "attempts_inv (settle sfy i outcome now dbUp s)"
proof (cases "i < length (running s)")
  case True
  have job: "below_attempts (running s ! i)"
    using assms True by (simp add: attempts_inv_def list_all_nth)
  have "attempts_inv (s\<lparr>running := take i (running s) @ drop (Suc i) (running s)\<rparr>)"
    using assms by (simp add: attempts_inv_def list_all_take list_all_drop)
  then show ?thesis
    using True job by (simp add: settle_def processJob_settle_inv)
next
  case False
  then show ?thesis using assms by (simp add: settle_def)
qed

lemma timer_fires_inv:
  assumes "attempts_inv s"
  shows "attempts_inv (timer_fires i s)"
proof (cases "i < length (timers s)")
  case True
  have "below_attempts (snd (timers s ! i))"
    using assms True list_all_nth [of "\<lambda>t. below_attempts (snd t)" "timers s" i]
    by (simp add: attempts_inv_def)
  then show ?thesis
    using assms True by (simp add: timer_fires_def attempts_inv_def list_all_take list_all_drop)
next
  case False
  then show ?thesis using assms by (simp add: timer_fires_def)
qed

lemma findIndex_Some: "findIndex P xs = Some i \<Longrightarrow> i < length xs \<and> P (xs ! i)"
  by (induction xs arbitrary: i) (auto split: if_splits)

lemma cancelTask_inv:
  assumes "attempts_inv s"
  shows "attempts_inv (snd (cancelTask jobId now dbUp s))"
proof (cases "findIndex (cancellable jobId) (queue s)")
  case None
  then show ?thesis using assms by (simp add: cancelTask_def)
next
  case (Some i)
  then have i: "i < length (queue s)" by (simp add: findIndex_Some)
  have job: "below_attempts (queue s ! i)"
    using assms i by (simp add: attempts_inv_def list_all_nth)
  have db: "list_all (\<lambda>d. below_attempts (job_of_doc d))
              (findOneAndUpdate (\<lambda>d. doc_jobId d = Some jobId)
                 (\<lambda>d. d\<lparr>doc_status := Cancelled, doc_cancelledAt := Some now\<rparr>) (db s))"
    using assms
    by (simp add: attempts_inv_def findOneAndUpdate_all cancel_update_below)
  show ?thesis
    using assms Some job db
    by (simp add: cancelTask_def emit_def Let_def attempts_inv_def list_all_take list_all_drop
          below_failed_or_below)
qed

lemma initialize_inv:
  assumes "attempts_inv s"
  shows "attempts_inv (initialize dbUp s)"
proof -
  have "list_all (\<lambda>d. below_attempts (job_of_doc d))
          (take 100 (sort_key doc_createdAt (filter loadable (db s))))"
    using assms by (auto simp: attempts_inv_def list_all_iff dest: in_set_takeD)
  then have "list_all below_attempts
          (map job_of_doc (take 100 (sort_key doc_createdAt (filter loadable (db s)))))"
    by (simp add: list_all_iff)
  then show ?thesis
    using assms
    by (simp add: initialize_def loadPendingTasks_def start_def attempts_inv_def)
qed

lemma step_inv:
  assumes "attempts_inv s" and "sane_submit a"
  shows "attempts_inv (step sfy a s)"
proof (cases a)
  case (Submit ty pl m now stamp oid dbUp)
  then have "case m of None \<Rightarrow> True | Some k \<Rightarrow> 0 \<le> k"
    using assms(2) by (simp add: sane_submit_def split: option.splits)
  then show ?thesis using assms(1) Submit by (simp add: addTask_inv)
qed (simp_all add: assms(1) processQueue_iteration_inv settle_inv timer_fires_inv
       cancelTask_inv initialize_inv, simp_all add: start_def stop_def attempts_inv_def assms(1) [unfolded attempts_inv_def])

lemma run_inv:
  "attempts_inv s \<Longrightarrow> list_all sane_submit acts \<Longrightarrow> attempts_inv (run sfy acts s)"
  unfolding run_def
  by (induction acts arbitrary: s) (simp_all add: step_inv)

lemma new_queue_inv:
  "list_all (\<lambda>d. below_attempts (job_of_doc d)) docs \<Longrightarrow> attempts_inv (new_queue c docs)"
  by (simp add: attempts_inv_def new_queue_def)

lemma attempts_inv_observed:
  assumes "attempts_inv s"
  shows "list_all failed_or_below (observed_jobs s)"
    and "list_all below_attempts (queue s @ map snd (timers s))"
proof -
  have "list_all failed_or_below (queue s)" "list_all failed_or_below (running s)"
    "list_all failed_or_below (map snd (timers s))" "list_all failed_or_below (map snd (emitted s))"
    using assms by (auto simp: attempts_inv_def list_all_iff below_failed_or_below)
  then show "list_all failed_or_below (observed_jobs s)"
    by (simp add: observed_jobs_def)
  show "list_all below_attempts (queue s @ map snd (timers s))"
    using assms by (auto simp: attempts_inv_def list_all_iff)
qed

lemma addTask_starts_at_zero:
  "addTask ty pl m now stamp oid dbUp s = (Inr jid, s') \<Longrightarrow>
   queue s' \<noteq> [] \<and> butlast (queue s') = queue s \<and> job_id (last (queue s')) = jid
   \<and> attempts (last (queue s')) = 0 \<and> status (last (queue s')) = Pending"
  by (auto simp: addTask_def emit_def Let_def split: if_splits)

lemma processJob_settle_returns:
  "run_handler job outcome = Returns r \<Longrightarrow>
   emitted (processJob_settle sfy now dbUp outcome job s)
     = emitted s @ [(''jobCompleted'', job\<lparr>status := Completed, progress := 100,
                        completedAt := Some now, result := Some r\<rparr>)]"
  by (simp add: processJob_settle_def emit_def Let_def)

lemma processJob_settle_exhausted:
  "run_handler job outcome = Throws msg left \<Longrightarrow> maxAttempts job \<le> int (Suc (attempts job)) \<Longrightarrow>
   emitted (processJob_settle sfy now dbUp outcome job s)
     = emitted s @ [(''jobFailed'', job\<lparr>progress := left, attempts := Suc (attempts job),
                        status := Failed, failedAt := Some now, error := Some msg\<rparr>)]
   \<and> queue (processJob_settle sfy now dbUp outcome job s) = queue s
   \<and> timers (processJob_settle sfy now dbUp outcome job s) = timers s"
  by (simp add: processJob_settle_def emit_def Let_def)

text \<open>
  C3. Every job the scheduler manages has \<open>attempts \<le> maxAttempts\<close> at every step of every
  run. The run starts from a new queue over any collection whose documents have fewer
  attempts than their bound (with the default 3 for a missing bound), and every submitted
  \<open>maxAttempts\<close> option is absent or not negative. The jobs observed are those in the queue,
  those being processed, those waiting on a retry timer and the snapshot carried by every
  emitted event. Moreover: a job waiting in the queue or on a retry timer is strictly below
  its bound; a job that has reached its bound is marked \<open>failed\<close>; a submitted job starts
  with 0 attempts; a handler that returns leaves \<open>attempts\<close> as it was; and a handler that
  throws on the last allowed attempt increments it, marks the job \<open>failed\<close> and neither
  enqueues it nor sets a timer.
\<close>

theorem attempts_never_exceed_maxAttempts:
  assumes "list_all (\<lambda>d. below_attempts (job_of_doc d)) docs"
      and "list_all sane_submit acts"
  shows "list_all within_attempts (observed_jobs (run stringify acts (new_queue c docs)))
       \<and> list_all below_attempts
            (queue (run stringify acts (new_queue c docs))
             @ map snd (timers (run stringify acts (new_queue c docs))))
       \<and> list_all (\<lambda>j. below_attempts j \<or> status j = Failed)
            (observed_jobs (run stringify acts (new_queue c docs)))
       \<and> (addTask ty pl m now stamp oid dbUp s = (Inr jid, s') \<longrightarrow>
            butlast (queue s') = queue s \<and> job_id (last (queue s')) = jid
            \<and> attempts (last (queue s')) = 0)
       \<and> (run_handler job outcome = Returns r \<longrightarrow>
            emitted (processJob_settle stringify now dbUp outcome job s)
              = emitted s @ [(''jobCompleted'', job\<lparr>status := Completed, progress := 100,
                                 completedAt := Some now, result := Some r\<rparr>)])
       \<and> (run_handler job outcome = Throws msg left \<and> maxAttempts job \<le> int (Suc (attempts job)) \<longrightarrow>
            emitted (processJob_settle stringify now dbUp outcome job s)
              = emitted s @ [(''jobFailed'', job\<lparr>progress := left, attempts := Suc (attempts job),
                                 status := Failed, failedAt := Some now, error := Some msg\<rparr>)]
            \<and> queue (processJob_settle stringify now dbUp outcome job s) = queue s
            \<and> timers (processJob_settle stringify now dbUp outcome job s) = timers s)"
proof -
  have inv: "attempts_inv (run stringify acts (new_queue c docs))"
    using assms by (simp add: run_inv new_queue_inv)
  have "list_all failed_or_below (observed_jobs (run stringify acts (new_queue c docs)))"
    using inv by (rule attempts_inv_observed)
  then have "list_all within_attempts (observed_jobs (run stringify acts (new_queue c docs)))"
    and "list_all (\<lambda>j. below_attempts j \<or> status j = Failed)
            (observed_jobs (run stringify acts (new_queue c docs)))"
    by (auto simp: list_all_iff failed_or_below_def)
  moreover have "list_all below_attempts
            (queue (run stringify acts (new_queue c docs))
             @ map snd (timers (run stringify acts (new_queue c docs))))"
    using inv by (rule attempts_inv_observed)
  moreover have "addTask ty pl m now stamp oid dbUp s = (Inr jid, s') \<longrightarrow>
            butlast (queue s') = queue s \<and> job_id (last (queue s')) = jid
            \<and> attempts (last (queue s')) = 0"
    using addTask_starts_at_zero [of ty pl m now stamp oid dbUp s jid s'] by blast
  moreover have "run_handler job outcome = Returns r \<longrightarrow>
            emitted (processJob_settle stringify now dbUp outcome job s)
              = emitted s @ [(''jobCompleted'', job\<lparr>status := Completed, progress := 100,
                                 completedAt := Some now, result := Some r\<rparr>)]"
    using processJob_settle_returns [of job outcome r stringify now dbUp s] by blast
  moreover have "run_handler job outcome = Throws msg left \<and> maxAttempts job \<le> int (Suc (attempts job)) \<longrightarrow>
            emitted (processJob_settle stringify now dbUp outcome job s)
              = emitted s @ [(''jobFailed'', job\<lparr>progress := left, attempts := Suc (attempts job),
                                 status := Failed, failedAt := Some now, error := Some msg\<rparr>)]
            \<and> queue (processJob_settle stringify now dbUp outcome job s) = queue s
            \<and> timers (processJob_settle stringify now dbUp outcome job s) = timers s"
    using processJob_settle_exhausted [of job outcome msg left stringify now dbUp s] by blast
  ultimately show ?thesis by blast
qed

lemma one_failure_run:
  "map (\<lambda>e. (fst e, attempts (snd e), maxAttempts (snd e), status (snd e)))
       (emitted (run (\<lambda>p. p) one_failure (new_queue 3 [])))
   = [(''jobAdded'', 0, 1, Pending), (''jobStarted'', 0, 1, Processing), (''jobFailed'', 1, 1, Failed)]"
  by (simp add: one_failure_def sched_defs)

theorem attempts_never_exceed_maxAttempts_witness:
  "list_all sane_submit one_failure
   \<and> map (\<lambda>e. (fst e, attempts (snd e), maxAttempts (snd e), status (snd e)))
       (emitted (run (\<lambda>p. p) one_failure (new_queue 3 [])))
     = [(''jobAdded'', 0, 1, Pending), (''jobStarted'', 0, 1, Processing), (''jobFailed'', 1, 1, Failed)]
   \<and> list_all within_attempts (observed_jobs (run (\<lambda>p. p) one_failure (new_queue 3 [])))"
proof -
  have sane: "list_all sane_submit one_failure"
    by (simp add: one_failure_def sane_submit_def)
  have docs: "list_all (\<lambda>d. below_attempts (job_of_doc d)) ([] :: string task_doc list)"
    by simp
  show ?thesis
    using attempts_never_exceed_maxAttempts [OF docs sane, of "\<lambda>p. p" 3] sane one_failure_run
    by blast
qed

lemma processQueue_iteration_full:
  "\<not> int (length (processing s)) < concurrency s \<Longrightarrow> processQueue_iteration now s = s"
  by (simp add: processQueue_iteration_def)

text \<open>
  C2. From a new queue with a concurrency of 0 or more, no run ever brings the size of the
  \<open>processing\<close> set above \<open>concurrency\<close> (the list that stands for the set never holds an id
  twice, so its length is the set's size; and since the run is any list of actions, the
  bound holds after each of them); and an iteration of the dispatch loop that finds the
  set not strictly below \<open>concurrency\<close> leaves the whole state as it is: it dequeues nothing
  and starts nothing.
\<close>

theorem processing_never_exceeds_concurrency:
  assumes "0 \<le> c"
  shows "int (length (processing (run stringify acts (new_queue c docs)))) \<le> c
       \<and> distinct (processing (run stringify acts (new_queue c docs)))
       \<and> (\<not> int (length (processing s)) < concurrency s \<longrightarrow> processQueue_iteration now s = s)"
proof -
  have "distinct (processing (new_queue c docs))"
    by (simp add: new_queue_def)
  then have d: "distinct (processing (run stringify acts (new_queue c docs)))"
    by (rule run_processing_distinct)
  have "int (length (processing (new_queue c docs))) \<le> concurrency (new_queue c docs)"
    using assms by (simp add: new_queue_def)
  then have "int (length (processing (run stringify acts (new_queue c docs))))
               \<le> concurrency (new_queue c docs)"
    by (rule run_processing_bound)
  then show ?thesis
    using d by (simp add: new_queue_def processQueue_iteration_full)
qed

lemma two_jobs_run:
  "processing (run (\<lambda>p. p) two_jobs (new_queue 1 [])) = [''task_a'']
   \<and> map job_id (queue (run (\<lambda>p. p) two_jobs (new_queue 1 []))) = [''task_b'']"
  by (simp add: two_jobs_def sched_defs)

theorem processing_never_exceeds_concurrency_witness:
  "(0::int) \<le> 1
   \<and> processing (run (\<lambda>p. p) two_jobs (new_queue 1 [])) = [''task_a'']
   \<and> map job_id (queue (run (\<lambda>p. p) two_jobs (new_queue 1 []))) = [''task_b'']
   \<and> int (length (processing (run (\<lambda>p. p) two_jobs (new_queue 1 [])))) \<le> 1"
  using processing_never_exceeds_concurrency [of 1 "\<lambda>p. p" two_jobs "[]"] two_jobs_run
  by simp

lemma find_findOneAndUpdate:
  "find q ds = Some d \<Longrightarrow> q (upd d) \<Longrightarrow> find q (findOneAndUpdate q upd ds) = Some (upd d)"
  by (induction ds) (auto split: if_splits)

lemma task_query_task_update: "task_query jid (task_update job d) = task_query jid d"
  by (simp add: task_query_def task_update_def)

lemma find_None_list_ex: "(find P xs = None) = (\<not> list_ex P xs)"
  by (induction xs) auto

text \<open>
  C4. A handler throws and the incremented \<open>attempts\<close> is still below \<open>maxAttempts\<close>. Then
  the job goes back to \<open>pending\<close> with progress 0; the queue itself is not touched; if a job
  of the same type whose payload stringifies to the same text is queued, no timer is set
  (so the retry is dropped), and otherwise one timer is set with the delay
  \<open>min (5000 * 2 ^ attempts) 60000\<close> for the incremented \<open>attempts\<close>, which on firing puts the
  job at the front of the queue; in both cases the collection is updated from the pending
  job, so that, with the database up, the task's document has status \<open>pending\<close>.
\<close>

theorem retry_backoff_and_dedup:
  assumes "run_handler job outcome = Throws msg left"
      and "int (Suc (attempts job)) < maxAttempts job"
  shows "let s' = processJob_settle stringify now dbUp outcome job s;
             retry = job\<lparr>attempts := Suc (attempts job), status := Pending, progress := 0\<rparr>;
             queued = list_ex (\<lambda>j. job_type j = job_type job
                                \<and> stringify (payload j) = stringify (payload job)) (queue s)
         in queue s' = queue s
          \<and> (if queued then timers s' = timers s
              else timers s' = timers s @ [(min (5000 * 2 ^ Suc (attempts job)) 60000, retry)]
                 \<and> queue (timer_fires (length (timers s)) s') = retry # queue s)
          \<and> (list_ex (\<lambda>j. job_type j = job_type job \<and> payload j = payload job) (queue s)
               \<longrightarrow> timers s' = timers s)
          \<and> db s' = updateTaskInDatabase dbUp retry (db s)
          \<and> (\<forall>d. dbUp \<and> find (task_query (job_id job)) (db s) = Some d
                 \<longrightarrow> find (task_query (job_id job)) (db s') = Some (task_update retry d)
                   \<and> doc_status (task_update retry d) = Pending)"
proof -
  define retry where "retry = job\<lparr>attempts := Suc (attempts job), status := Pending, progress := 0\<rparr>"
  define s' where "s' = processJob_settle stringify now dbUp outcome job s"
  define queued where "queued = list_ex (\<lambda>j. job_type j = job_type job
                                \<and> stringify (payload j) = stringify (payload job)) (queue s)"
  have retry_eq: "job\<lparr>progress := left, attempts := Suc (attempts job), status := Pending,
                      progress := 0\<rparr> = retry"
    by (simp add: retry_def)
  have same: "same_task stringify retry = (\<lambda>j. job_type j = job_type job
                                \<and> stringify (payload j) = stringify (payload job))"
    by (simp add: same_task_def retry_def fun_eq_iff)
  have found: "(find (same_task stringify (job\<lparr>progress := left, attempts := Suc (attempts job),
                   status := Pending, progress := 0\<rparr>)) (queue s) = None) = (\<not> queued)"
    unfolding retry_eq by (simp add: find_None_list_ex same queued_def)
  have q: "queue s' = queue s"
    using assms
    by (simp add: s'_def processJob_settle_def Let_def emit_def split: option.splits)
  have d: "db s' = updateTaskInDatabase dbUp retry (db s)"
    using assms
    by (simp add: s'_def processJob_settle_def Let_def emit_def retry_def split: option.splits)
  have t1: "queued \<Longrightarrow> timers s' = timers s"
    using assms found
    by (cases "find (same_task stringify (job\<lparr>progress := left, attempts := Suc (attempts job),
                   status := Pending, progress := 0\<rparr>)) (queue s)")
       (simp_all add: s'_def processJob_settle_def Let_def emit_def)
  have t2: "\<not> queued \<Longrightarrow> timers s' = timers s @ [(min (5000 * 2 ^ Suc (attempts job)) 60000, retry)]"
    using assms found
    by (cases "find (same_task stringify (job\<lparr>progress := left, attempts := Suc (attempts job),
                   status := Pending, progress := 0\<rparr>)) (queue s)")
       (simp_all add: s'_def processJob_settle_def Let_def emit_def retry_delay_def retry_def)
  have t3: "\<not> queued \<Longrightarrow> queue (timer_fires (length (timers s)) s') = retry # queue s"
    using t2 q by (simp add: timer_fires_def)
  have weaker: "list_ex (\<lambda>j. job_type j = job_type job \<and> payload j = payload job) (queue s)
                  \<Longrightarrow> queued"
    by (auto simp: queued_def list_ex_iff)
  have p: "dbUp \<and> find (task_query (job_id job)) (db s) = Some d
             \<Longrightarrow> find (task_query (job_id job)) (db s') = Some (task_update retry d)
                 \<and> doc_status (task_update retry d) = Pending" for d
  proof -
    assume a: "dbUp \<and> find (task_query (job_id job)) (db s) = Some d"
    then have "task_query (job_id job) d"
      by (auto simp: find_Some_iff)
    then have "task_query (job_id job) (task_update retry d)"
      by (simp add: task_query_task_update)
    with a have "find (task_query (job_id job))
                   (findOneAndUpdate (task_query (job_id job)) (task_update retry) (db s))
                 = Some (task_update retry d)"
      by (simp add: find_findOneAndUpdate)
    moreover have "job_id retry = job_id job" by (simp add: retry_def)
    ultimately show ?thesis
      using a d by (simp add: updateTaskInDatabase_def task_update_def retry_def)
  qed
  have "queue s' = queue s
          \<and> (if queued then timers s' = timers s
              else timers s' = timers s @ [(min (5000 * 2 ^ Suc (attempts job)) 60000, retry)]
                 \<and> queue (timer_fires (length (timers s)) s') = retry # queue s)
          \<and> (list_ex (\<lambda>j. job_type j = job_type job \<and> payload j = payload job) (queue s)
               \<longrightarrow> timers s' = timers s)
          \<and> db s' = updateTaskInDatabase dbUp retry (db s)
          \<and> (\<forall>d. dbUp \<and> find (task_query (job_id job)) (db s) = Some d
                 \<longrightarrow> find (task_query (job_id job)) (db s') = Some (task_update retry d)
                   \<and> doc_status (task_update retry d) = Pending)"
    using q d t1 t2 t3 weaker p by (cases queued) auto
  then show ?thesis
    unfolding s'_def retry_def queued_def Let_def .
qed

theorem retry_backoff_and_dedup_witness:
  "run_handler blocked_job (Throws ''blocked'' 30) = Throws ''blocked'' 30
   \<and> int (Suc (attempts blocked_job)) < maxAttempts blocked_job
   \<and> timers (processJob_settle (\<lambda>p. p) 5 True (Throws ''blocked'' 30) blocked_job (new_queue 3 []))
       = [(10000, blocked_job\<lparr>attempts := 1, status := Pending, progress := 0\<rparr>)]
   \<and> queue (processJob_settle (\<lambda>p. p) 5 True (Throws ''blocked'' 30) blocked_job (new_queue 3 [])) = []"
proof -
  have h1: "run_handler blocked_job (Throws ''blocked'' 30) = Throws ''blocked'' 30"
    by (simp add: run_handler_def blocked_job_def)
  have h2: "int (Suc (attempts blocked_job)) < maxAttempts blocked_job"
    by (simp add: blocked_job_def)
  have a: "attempts blocked_job = 0"
    by (simp add: blocked_job_def)
  show ?thesis
    using retry_backoff_and_dedup [OF h1 h2, of "\<lambda>p. p" 5 True "new_queue 3 []"] h1 h2
    by (simp add: Let_def new_queue_def a)
qed

lemma cancelTask_refuses:
  "findIndex (cancellable jobId) (queue s) = None \<Longrightarrow> cancelTask jobId now dbUp s = (Inr False, s)"
  by (simp add: cancelTask_def)

lemma findIndex_None: "(findIndex P xs = None) = (\<not> list_ex P xs)"
  by (induction xs) auto

lemma cancelTask_true:
  assumes "cancelTask jobId now dbUp s = (Inr True, s')"
  shows "\<exists>i. findIndex (cancellable jobId) (queue s) = Some i \<and> i < length (queue s)
           \<and> job_id (queue s ! i) = jobId \<and> status (queue s ! i) = Pending
           \<and> queue s' = take i (queue s) @ drop (Suc i) (queue s)
           \<and> emitted s' = emitted s @ [(''jobCancelled'', (queue s ! i)\<lparr>status := Cancelled\<rparr>)]
           \<and> db s' = findOneAndUpdate (\<lambda>d. doc_jobId d = Some jobId)
                        (\<lambda>d. d\<lparr>doc_status := Cancelled, doc_cancelledAt := Some now\<rparr>) (db s)"
proof (cases "findIndex (cancellable jobId) (queue s)")
  case None
  then show ?thesis using assms by (simp add: cancelTask_def)
next
  case (Some i)
  then have "i < length (queue s) \<and> cancellable jobId (queue s ! i)"
    by (rule findIndex_Some)
  then show ?thesis
    using assms Some
    by (auto simp: cancelTask_def emit_def Let_def cancellable_def split: if_splits)
qed

lemma cancelTask_accepts:
  assumes "list_ex (cancellable jobId) (queue s)" and dbUp
  shows "fst (cancelTask jobId now dbUp s) = Inr True"
proof -
  have "findIndex (cancellable jobId) (queue s) \<noteq> None"
    using assms(1) by (simp add: findIndex_None)
  then obtain i where "findIndex (cancellable jobId) (queue s) = Some i"
    by auto
  then show ?thesis
    using assms(2) by (simp add: cancelTask_def Let_def)
qed

text \<open>
  C6. \<open>cancelTask\<close> returns true only when a job with the given id is pending in the queue:
  then that job has left the queue, it is marked \<open>cancelled\<close>, \<open>jobCancelled\<close> is emitted with
  it, and the record that carries this \<open>jobId\<close> (the cancel route looks it up by \<open>jobId\<close>
  before it calls \<open>cancelTask\<close>) has status \<open>cancelled\<close> in the collection. With such a job
  queued and the database up it does return true. With no such job (the job is in flight,
  finished, or unknown) it returns false, throws nothing and leaves the whole state, the
  collection included, as it was.
\<close>

theorem cancelTask_only_from_pending_queue:
  "(cancelTask jobId now dbUp s = (Inr True, s') \<longrightarrow>
      (\<exists>i. findIndex (cancellable jobId) (queue s) = Some i \<and> i < length (queue s)
           \<and> job_id (queue s ! i) = jobId \<and> status (queue s ! i) = Pending
           \<and> queue s' = take i (queue s) @ drop (Suc i) (queue s)
           \<and> emitted s' = emitted s @ [(''jobCancelled'', (queue s ! i)\<lparr>status := Cancelled\<rparr>)])
      \<and> (\<forall>d. find (\<lambda>d. doc_jobId d = Some jobId) (db s) = Some d \<longrightarrow>
             (\<exists>d'. find (\<lambda>d. doc_jobId d = Some jobId) (db s') = Some d'
                   \<and> doc_status d' = Cancelled \<and> doc_id d' = doc_id d)))
   \<and> (list_ex (cancellable jobId) (queue s) \<and> dbUp \<longrightarrow>
        fst (cancelTask jobId now dbUp s) = Inr True)
   \<and> (\<not> list_ex (cancellable jobId) (queue s) \<longrightarrow>
        cancelTask jobId now dbUp s = (Inr False, s))"
proof -
  have a: "\<exists>i. findIndex (cancellable jobId) (queue s) = Some i \<and> i < length (queue s)
           \<and> job_id (queue s ! i) = jobId \<and> status (queue s ! i) = Pending
           \<and> queue s' = take i (queue s) @ drop (Suc i) (queue s)
           \<and> emitted s' = emitted s @ [(''jobCancelled'', (queue s ! i)\<lparr>status := Cancelled\<rparr>)]"
    if "cancelTask jobId now dbUp s = (Inr True, s')"
    using cancelTask_true [OF that] by blast
  have b: "\<exists>d'. find (\<lambda>d. doc_jobId d = Some jobId) (db s') = Some d'
                   \<and> doc_status d' = Cancelled \<and> doc_id d' = doc_id d"
    if t: "cancelTask jobId now dbUp s = (Inr True, s')"
      and f: "find (\<lambda>d. doc_jobId d = Some jobId) (db s) = Some d" for d
  proof -
    have "db s' = findOneAndUpdate (\<lambda>d. doc_jobId d = Some jobId)
                        (\<lambda>d. d\<lparr>doc_status := Cancelled, doc_cancelledAt := Some now\<rparr>) (db s)"
      using cancelTask_true [OF t] by blast
    moreover have "doc_jobId d = Some jobId"
      using f by (auto simp: find_Some_iff)
    ultimately have "find (\<lambda>d. doc_jobId d = Some jobId) (db s')
                      = Some (d\<lparr>doc_status := Cancelled, doc_cancelledAt := Some now\<rparr>)"
      using f find_findOneAndUpdate [of "\<lambda>d. doc_jobId d = Some jobId" "db s" d
               "\<lambda>d. d\<lparr>doc_status := Cancelled, doc_cancelledAt := Some now\<rparr>"]
      by simp
    then show ?thesis by simp
  qed
  have c: "fst (cancelTask jobId now dbUp s) = Inr True"
    if "list_ex (cancellable jobId) (queue s) \<and> dbUp"
    using that cancelTask_accepts [of jobId s dbUp now] by blast
  have d: "cancelTask jobId now dbUp s = (Inr False, s)"
    if "\<not> list_ex (cancellable jobId) (queue s)"
    using that by (simp add: cancelTask_refuses findIndex_None)
  show ?thesis using a b c d by blast
qed

lemma submitted_cancel:
  "map (\<lambda>j. (job_id j, status j)) (queue submitted) = [(''task_a'', Pending)]
   \<and> map (\<lambda>d. (doc_jobId d, doc_status d)) (db submitted) = [(Some ''task_a'', Pending)]
   \<and> fst (cancelTask ''task_a'' 9 True submitted) = Inr True
   \<and> queue (snd (cancelTask ''task_a'' 9 True submitted)) = []
   \<and> map (\<lambda>d. (doc_jobId d, doc_status d)) (db (snd (cancelTask ''task_a'' 9 True submitted)))
       = [(Some ''task_a'', Cancelled)]
   \<and> map (\<lambda>e. (fst e, job_id (snd e), status (snd e)))
        (emitted (snd (cancelTask ''task_a'' 9 True submitted)))
       = [(''jobAdded'', ''task_a'', Pending), (''jobCancelled'', ''task_a'', Cancelled)]"
  by (simp add: submitted_def sched_defs cancelTask_def cancellable_def)

lemma finished_cancel:
  "queue finished = [] \<and> processing finished = [] \<and> running finished = []
   \<and> map (\<lambda>d. (doc_jobId d, doc_status d)) (db finished) = [(Some ''task_a'', Completed)]"
  by (simp add: finished_def sched_defs)

theorem cancelTask_only_from_pending_queue_witness:
  "map (\<lambda>j. (job_id j, status j)) (queue submitted) = [(''task_a'', Pending)]
   \<and> fst (cancelTask ''task_a'' 9 True submitted) = Inr True
   \<and> queue (snd (cancelTask ''task_a'' 9 True submitted)) = []
   \<and> map (\<lambda>d. (doc_jobId d, doc_status d)) (db (snd (cancelTask ''task_a'' 9 True submitted)))
       = [(Some ''task_a'', Cancelled)]
   \<and> map (\<lambda>e. (fst e, job_id (snd e), status (snd e)))
        (emitted (snd (cancelTask ''task_a'' 9 True submitted)))
       = [(''jobAdded'', ''task_a'', Pending), (''jobCancelled'', ''task_a'', Cancelled)]
   \<and> map (\<lambda>d. (doc_jobId d, doc_status d)) (db finished) = [(Some ''task_a'', Completed)]
   \<and> \<not> list_ex (cancellable ''task_a'') (queue finished)
   \<and> cancelTask ''task_a'' 9 True finished = (Inr False, finished)"
proof -
  have none: "\<not> list_ex (cancellable ''task_a'') (queue finished)"
    using finished_cancel by simp
  show ?thesis
    using cancelTask_only_from_pending_queue
            [of "''task_a''" 9 True finished "snd (cancelTask ''task_a'' 9 True finished)"]
          cancelTask_only_from_pending_queue
            [of "''task_a''" 9 True submitted "snd (cancelTask ''task_a'' 9 True submitted)"]
          none submitted_cancel finished_cancel
    by blast
qed

text \<open>
  C9. The model method \<open>cancel\<close> takes a task from \<open>pending\<close> or from \<open>processing\<close> to
  \<open>cancelled\<close>, sets \<open>completedAt\<close> and saves; from \<open>completed\<close>, \<open>failed\<close> or \<open>cancelled\<close> it
  resolves with the task as it is, without saving. The scheduler's \<open>cancelTask\<close> differs:
  when every queued job with the given id is \<open>processing\<close> it returns false and changes
  nothing.
\<close>

theorem task_cancel_from_pending_or_processing:
  "(doc_status t = Pending \<or> doc_status t = Processing \<longrightarrow>
      cancel now t = (t\<lparr>doc_status := Cancelled, doc_completedAt := Some now\<rparr>, True))
   \<and> (doc_status t = Completed \<or> doc_status t = Failed \<or> doc_status t = Cancelled \<longrightarrow>
      cancel now t = (t, False))
   \<and> (list_all (\<lambda>j. job_id j = jobId \<longrightarrow> status j = Processing) (queue s) \<longrightarrow>
      cancelTask jobId now dbUp s = (Inr False, s))"
proof -
  have "list_all (\<lambda>j. job_id j = jobId \<longrightarrow> status j = Processing) (queue s)
          \<Longrightarrow> findIndex (cancellable jobId) (queue s) = None"
    by (auto simp: findIndex_None list_all_iff list_ex_iff cancellable_def)
  then show ?thesis
    by (auto simp: cancel_def cancelTask_refuses)
qed

lemma in_flight_run:
  "map (\<lambda>j. (job_id j, status j)) (running in_flight) = [(''task_a'', Processing)]
   \<and> processing in_flight = [''task_a''] \<and> queue in_flight = []"
  by (simp add: in_flight_def sched_defs)

theorem task_cancel_from_pending_or_processing_witness:
  "doc_status in_flight_doc = Processing
   \<and> doc_status (fst (cancel 9 in_flight_doc)) = Cancelled
   \<and> doc_completedAt (fst (cancel 9 in_flight_doc)) = Some 9
   \<and> snd (cancel 9 in_flight_doc)
   \<and> doc_status (in_flight_doc\<lparr>doc_status := Completed\<rparr>) = Completed
   \<and> cancel 9 (in_flight_doc\<lparr>doc_status := Completed\<rparr>)
       = (in_flight_doc\<lparr>doc_status := Completed\<rparr>, False)
   \<and> map (\<lambda>j. (job_id j, status j)) (running in_flight) = [(''task_a'', Processing)]
   \<and> list_all (\<lambda>j. job_id j = ''task_a'' \<longrightarrow> status j = Processing) (queue in_flight)
   \<and> cancelTask ''task_a'' 9 True in_flight = (Inr False, in_flight)"
  using task_cancel_from_pending_or_processing
          [of in_flight_doc 9 "''task_a''" in_flight True]
        task_cancel_from_pending_or_processing
          [of "in_flight_doc\<lparr>doc_status := Completed\<rparr>" 9 "''task_a''" in_flight True]
        in_flight_run
  by (simp add: in_flight_doc_def)

end
